theory Spec2Isabelle
  imports Main
begin

section \<open>Data model\<close>

text \<open>
  Timestamps are JavaScript \<open>Date\<close> values, read as milliseconds since the epoch.
  Each service call below is given the clock value \<open>now\<close> it observes through
  \<open>new Date()\<close> and through the store's \<open>NOW()\<close>; one call reads one instant.
\<close>

type_synonym time = int

text \<open>
  The attributes declared by \<open>User.init\<close>, \<open>Post.init\<close> and \<open>PostLike.init\<close>
  (\<open>database/models\<close>). The columns \<open>created_at\<close>/\<open>updated_at\<close> that the ORM
  maintains by itself (\<open>timestamps: true\<close>) are not part of the model.
\<close>

record user =
  u_id :: nat
  u_name :: string
  u_email :: string
  password_hash :: string

record post =
  p_id :: nat
  p_user_id :: nat
  title :: string
  summary :: string
  content :: string
  available_at :: time

record post_like =
  l_id :: nat
  l_user_id :: nat
  l_post_id :: nat
  liked_at :: time
  is_deleted :: bool

text \<open>
  The relational store: each table is the list of its rows in the order in which the
  store scans them; \<open>post_likes_seq\<close> is the next value of the auto-increment key of
  \<open>post_likes\<close>.
\<close>

record db =
  users :: "user list"
  posts :: "post list"
  post_likes :: "post_like list"
  post_likes_seq :: nat

text \<open>
  Every \<open>throw new Error(msg)\<close> of the services is a constructor; the comment gives
  the message (without its diacritics), and \<open>feedback_item\<close> lists the feedback lines of
  \<open>AuthUtils.validatePasswordStrength\<close>. \<open>SequelizeUniqueConstraintError\<close> is what
  the store raises when an insert violates the unique index
  \<open>post_likes_user_post_unique\<close>, \<open>SequelizeValidationError\<close> what the ORM raises
  when a value fails a validator of the model; \<open>TypeError\<close> is the runtime's error on
  reading a property of \<open>null\<close>.
\<close>

datatype feedback_item =
    TooShort       \<comment> \<open>'Senha deve ter pelo menos 6 caracteres'\<close>
  | AddLowercase   \<comment> \<open>'Adicione letras minusculas'\<close>
  | AddUppercase   \<comment> \<open>'Adicione letras maiusculas'\<close>
  | AddDigits      \<comment> \<open>'Adicione numeros'\<close>
  | AddSpecial     \<comment> \<open>'Adicione caracteres especiais'\<close>
  | TooCommon      \<comment> \<open>'Senha muito comum'\<close>

datatype error =
    PostNotFound                    \<comment> \<open>'Post nao encontrado'\<close>
  | UserNotFound                    \<comment> \<open>'Usuario nao encontrado'\<close>
  | LikeNotFoundOrNoPermission      \<comment> \<open>'Like nao encontrado ou voce nao tem permissao para remove-lo'\<close>
  | AccessDeniedEdit                \<comment> \<open>'Acesso negado. Voce nao tem permissao para editar este post'\<close>
  | AccessDeniedRemove              \<comment> \<open>'Acesso negado. Voce nao tem permissao para remover este post'\<close>
  | AccessDeniedSchedule            \<comment> \<open>'Acesso negado. Voce nao tem permissao para agendar este post'\<close>
  | DateNotInFuture                 \<comment> \<open>'Data de disponibilidade deve ser no futuro'\<close>
  | InvalidCredentials              \<comment> \<open>'Credenciais invalidas'\<close>
  | WrongCurrentPassword            \<comment> \<open>'Senha atual incorreta'\<close>
  | InvalidNewPassword "feedback_item list" \<comment> \<open>'Nova senha invalida: ' followed by the feedback\<close>
  | SamePassword                    \<comment> \<open>'A nova senha deve ser diferente da senha atual'\<close>
  | TokenError                      \<comment> \<open>'Erro interno ao gerar token'\<close>
  | SequelizeUniqueConstraintError
  | SequelizeValidationError
  | TypeError

text \<open>The \<open>type_error\<close> tags the controllers put in a failure response.\<close>

datatype error_kind =
    NOT_FOUND | AUTHORIZATION_ERROR | VALIDATION_ERROR | AUTHENTICATION_ERROR | INTERNAL_ERROR

section \<open>The PostLike model\<close>

text \<open>
  \<open>PostLike.toggle\<close> (\<open>PostLike.model.js\<close>): flip \<open>is_deleted\<close>, and when the row
  is active afterwards set \<open>liked_at\<close> to the current time. The \<open>save()\<close> that follows
  is \<open>PostLike_save\<close> below.
\<close>

definition toggle :: "post_like \<Rightarrow> time \<Rightarrow> post_like" where
  "toggle l now =
     (let l' = l\<lparr>is_deleted := \<not> is_deleted l\<rparr>
      in if \<not> is_deleted l' then l'\<lparr>liked_at := now\<rparr> else l')"

definition isActive :: "post_like \<Rightarrow> bool" where
  "isActive l = (\<not> is_deleted l)"

text \<open>
  A \<open>where\<close> object over \<open>post_likes\<close>: one optional equality per key. The model's
  \<open>defaultScope\<close> is \<open>where: { is_deleted: false }\<close>; the ORM merges it into the
  \<open>where\<close> of every finder and of \<open>count\<close> called on the model, a key given by the
  caller replacing the same key of the scope. No call of the services leaves the
  default scope (\<open>unscoped\<close> and the \<open>withDeleted\<close> scope are never used).
\<close>

record like_where =
  lw_id :: "nat option"
  lw_post_id :: "nat option"
  lw_user_id :: "nat option"
  lw_is_deleted :: "bool option"

definition merge_key :: "'a option \<Rightarrow> 'a option \<Rightarrow> 'a option" where
  "merge_key scope_v opt_v = (case opt_v of Some v \<Rightarrow> Some v | None \<Rightarrow> scope_v)"

definition PostLike_defaultScope :: like_where where
  "PostLike_defaultScope =
     \<lparr>lw_id = None, lw_post_id = None, lw_user_id = None, lw_is_deleted = Some False\<rparr>"

definition PostLike_injectScope :: "like_where \<Rightarrow> like_where" where
  "PostLike_injectScope w =
     \<lparr>lw_id = merge_key (lw_id PostLike_defaultScope) (lw_id w),
      lw_post_id = merge_key (lw_post_id PostLike_defaultScope) (lw_post_id w),
      lw_user_id = merge_key (lw_user_id PostLike_defaultScope) (lw_user_id w),
      lw_is_deleted = merge_key (lw_is_deleted PostLike_defaultScope) (lw_is_deleted w)\<rparr>"

definition holds_key :: "'a option \<Rightarrow> 'a \<Rightarrow> bool" where
  "holds_key c v = (case c of None \<Rightarrow> True | Some x \<Rightarrow> v = x)"

definition like_matches :: "like_where \<Rightarrow> post_like \<Rightarrow> bool" where
  "like_matches w l =
     (holds_key (lw_id w) (l_id l) \<and> holds_key (lw_post_id w) (l_post_id l) \<and>
      holds_key (lw_user_id w) (l_user_id l) \<and> holds_key (lw_is_deleted w) (is_deleted l))"

definition PostLike_findOne :: "db \<Rightarrow> like_where \<Rightarrow> post_like option" where
  "PostLike_findOne d w = find (like_matches (PostLike_injectScope w)) (post_likes d)"

definition PostLike_count :: "db \<Rightarrow> like_where \<Rightarrow> nat" where
  "PostLike_count d w = length (filter (like_matches (PostLike_injectScope w)) (post_likes d))"

text \<open>
  \<open>PostLike.create\<close>: the insert takes the next value of the key sequence, and is
  then refused by the unique index on \<open>(user_id, post_id)\<close> when a row of the pair
  is already stored, deleted or not (the value taken is not given back); otherwise the
  row is appended with that key.
\<close>

definition PostLike_create :: "db \<Rightarrow> nat \<Rightarrow> nat \<Rightarrow> time \<Rightarrow> bool \<Rightarrow> (error + post_like) \<times> db" where
  "PostLike_create d postId userId at del =
     (if \<exists>r \<in> set (post_likes d). l_user_id r = userId \<and> l_post_id r = postId
      then (Inl SequelizeUniqueConstraintError, d\<lparr>post_likes_seq := Suc (post_likes_seq d)\<rparr>)
      else
        (let l = \<lparr>l_id = post_likes_seq d, l_user_id = userId, l_post_id = postId,
                   liked_at = at, is_deleted = del\<rparr>
         in (Inr l, d\<lparr>post_likes := post_likes d @ [l], post_likes_seq := Suc (post_likes_seq d)\<rparr>)))"

text \<open>
  \<open>instance.save()\<close> after a change of \<open>is_deleted\<close> and \<open>liked_at\<close>: an update of
  these columns on the row with the instance's primary key.
\<close>

definition PostLike_save :: "db \<Rightarrow> post_like \<Rightarrow> db" where
  "PostLike_save d l =
     d\<lparr>post_likes :=
         map (\<lambda>r. if l_id r = l_id l then r\<lparr>is_deleted := is_deleted l, liked_at := liked_at l\<rparr> else r)
             (post_likes d)\<rparr>"

section \<open>The User and Post models\<close>

text \<open>\<open>User\<close> declares no scope: \<open>User.findByPk\<close> and \<open>User.findOne({ where: { email } })\<close>.\<close>

definition User_findByPk :: "db \<Rightarrow> nat \<Rightarrow> user option" where
  "User_findByPk d i = find (\<lambda>u. u_id u = i) (users d)"

definition User_findOne_email :: "db \<Rightarrow> string \<Rightarrow> user option" where
  "User_findOne_email d e = find (\<lambda>u. u_email u = e) (users d)"

text \<open>
  A \<open>where\<close> object over \<open>posts\<close>. \<open>Post\<close> declares
  \<open>defaultScope: { where: { available_at: { [Op.lte]: fn('NOW') } }, order: [['available_at', 'DESC']] }\<close>
  (\<open>Post.model.js\<close>), which the ORM merges into every \<open>findByPk\<close>,
  \<open>findAndCountAll\<close>, \<open>update\<close> and \<open>destroy\<close> called on the model, a key given by the
  caller replacing the same key of the scope. No call of the services leaves the default
  scope (the \<open>withScheduled\<close> scope is never used).
\<close>

record post_where =
  pw_id :: "nat option"
  pw_user_id :: "nat option"
  pw_available_at_lte :: "time option"

definition Post_defaultScope :: "time \<Rightarrow> post_where" where
  "Post_defaultScope now = \<lparr>pw_id = None, pw_user_id = None, pw_available_at_lte = Some now\<rparr>"

definition Post_injectScope :: "time \<Rightarrow> post_where \<Rightarrow> post_where" where
  "Post_injectScope now w =
     \<lparr>pw_id = merge_key (pw_id (Post_defaultScope now)) (pw_id w),
      pw_user_id = merge_key (pw_user_id (Post_defaultScope now)) (pw_user_id w),
      pw_available_at_lte =
        merge_key (pw_available_at_lte (Post_defaultScope now)) (pw_available_at_lte w)\<rparr>"

definition post_matches :: "post_where \<Rightarrow> post \<Rightarrow> bool" where
  "post_matches w p =
     (holds_key (pw_id w) (p_id p) \<and> holds_key (pw_user_id w) (p_user_id p) \<and>
      (case pw_available_at_lte w of None \<Rightarrow> True | Some t \<Rightarrow> available_at p \<le> t))"

definition where_id :: "nat \<Rightarrow> post_where" where
  "where_id i = \<lparr>pw_id = Some i, pw_user_id = None, pw_available_at_lte = None\<rparr>"

definition Post_findByPk :: "db \<Rightarrow> time \<Rightarrow> nat \<Rightarrow> post option" where
  "Post_findByPk d now i = find (post_matches (Post_injectScope now (where_id i))) (posts d)"

section \<open>LikeService\<close>

record toggle_result =
  liked :: bool
  total_likes :: nat

definition where_post_user :: "nat \<Rightarrow> nat \<Rightarrow> like_where" where
  "where_post_user postId userId =
     \<lparr>lw_id = None, lw_post_id = Some postId, lw_user_id = Some userId, lw_is_deleted = None\<rparr>"

definition where_post_active :: "nat \<Rightarrow> like_where" where
  "where_post_active postId =
     \<lparr>lw_id = None, lw_post_id = Some postId, lw_user_id = None, lw_is_deleted = Some False\<rparr>"

definition where_id_user :: "nat \<Rightarrow> nat \<Rightarrow> like_where" where
  "where_id_user likeId userId =
     \<lparr>lw_id = Some likeId, lw_post_id = None, lw_user_id = Some userId, lw_is_deleted = None\<rparr>"

text \<open>
  \<open>LikeService.toggleLike\<close>. The result pairs what the promise settles with (\<open>Inl\<close>
  the error it rejects with) and the store after the call.
\<close>

definition toggleLike :: "db \<Rightarrow> time \<Rightarrow> nat \<Rightarrow> nat \<Rightarrow> (error + toggle_result) \<times> db" where
  "toggleLike d now postId userId =
     (case Post_findByPk d now postId of
        None \<Rightarrow> (Inl PostNotFound, d)
      | Some post \<Rightarrow>
          (case User_findByPk d userId of
             None \<Rightarrow> (Inl UserNotFound, d)
           | Some u \<Rightarrow>
               (case PostLike_findOne d (where_post_user postId userId) of
                  Some like \<Rightarrow>
                    (let like' = toggle like now;
                         d' = PostLike_save d like'
                     in (Inr \<lparr>liked = \<not> is_deleted like',
                              total_likes = PostLike_count d' (where_post_active postId)\<rparr>, d'))
                | None \<Rightarrow>
                    (case PostLike_create d postId userId now False of
                       (Inl e, d') \<Rightarrow> (Inl e, d')
                     | (Inr like, d') \<Rightarrow>
                         (Inr \<lparr>liked = True,
                               total_likes = PostLike_count d' (where_post_active postId)\<rparr>, d')))))"

text \<open>\<open>LikeService.removeLike\<close>: one lookup by \<open>(id, user_id)\<close>, one error for both misses.\<close>

definition removeLike :: "db \<Rightarrow> nat \<Rightarrow> nat \<Rightarrow> (error + bool) \<times> db" where
  "removeLike d likeId userId =
     (case PostLike_findOne d (where_id_user likeId userId) of
        None \<Rightarrow> (Inl LikeNotFoundOrNoPermission, d)
      | Some like \<Rightarrow> (Inr True, PostLike_save d (like\<lparr>is_deleted := True\<rparr>)))"

text \<open>A run of toggle requests, each against the store the previous one left.\<close>

fun toggleLikes :: "db \<Rightarrow> (time \<times> nat \<times> nat) list \<Rightarrow> db" where
  "toggleLikes d [] = d"
| "toggleLikes d ((now, postId, userId) # cs) =
     toggleLikes (snd (toggleLike d now postId userId)) cs"

text \<open>
  The \<open>catch\<close> blocks of \<open>LikeController\<close>: \<open>toggleLike\<close> compares the message with
  the two not-found messages; \<open>removeLike\<close> tests whether the message includes
  'nao encontrado' or 'permissao'.
\<close>

fun LikeController_toggleLike_kind :: "error \<Rightarrow> error_kind" where
  "LikeController_toggleLike_kind PostNotFound = NOT_FOUND"
| "LikeController_toggleLike_kind UserNotFound = NOT_FOUND"
| "LikeController_toggleLike_kind _ = INTERNAL_ERROR"

fun LikeController_removeLike_kind :: "error \<Rightarrow> error_kind" where
  "LikeController_removeLike_kind PostNotFound = NOT_FOUND"
| "LikeController_removeLike_kind UserNotFound = NOT_FOUND"
| "LikeController_removeLike_kind LikeNotFoundOrNoPermission = NOT_FOUND"
| "LikeController_removeLike_kind AccessDeniedEdit = NOT_FOUND"
| "LikeController_removeLike_kind AccessDeniedRemove = NOT_FOUND"
| "LikeController_removeLike_kind AccessDeniedSchedule = NOT_FOUND"
| "LikeController_removeLike_kind _ = INTERNAL_ERROR"

definition like_pair :: "post_like \<Rightarrow> nat \<times> nat" where
  "like_pair l = (l_user_id l, l_post_id l)"

definition like_key :: "post_like \<Rightarrow> nat \<times> nat \<times> nat" where
  "like_key l = (l_id l, l_user_id l, l_post_id l)"

section \<open>PostService\<close>

text \<open>
  \<open>Post.update(values, { where })\<close> and \<open>Post.destroy({ where })\<close> are the static
  calls, so the default scope is merged into their \<open>where\<close> too. \<open>values\<close> holds the
  fields the request gave. Before it writes, \<open>Post.update\<close> runs the validators that
  \<open>Post.init\<close> declares for the fields given: \<open>notEmpty\<close> (some character is not
  white space) and \<open>len\<close> (1 to 200 for the title, 10 to 500 for the summary, 50 to
  10000 for the content); a failure is a \<open>SequelizeValidationError\<close> and nothing is
  written. The texts are ASCII strings here, and a timestamp is always a valid date, so
  \<open>isDate\<close> and \<open>notEmpty\<close> hold of every \<open>available_at\<close>. The foreign key
  \<open>post_likes.post_id\<close> is declared \<open>onDelete: 'CASCADE'\<close> by the migration.
\<close>

record post_update =
  upd_title :: "string option"
  upd_summary :: "string option"
  upd_content :: "string option"
  upd_available_at :: "time option"

definition set_field :: "'a option \<Rightarrow> 'a \<Rightarrow> 'a" where
  "set_field v old = (case v of None \<Rightarrow> old | Some x \<Rightarrow> x)"

definition apply_update :: "post_update \<Rightarrow> post \<Rightarrow> post" where
  "apply_update v p =
     p\<lparr>title := set_field (upd_title v) (title p),
       summary := set_field (upd_summary v) (summary p),
       content := set_field (upd_content v) (content p),
       available_at := set_field (upd_available_at v) (available_at p)\<rparr>"

definition whitespace :: string where
  "whitespace = [CHR 0x20, CHR 0x09, CHR 0x0A, CHR 0x0B, CHR 0x0C, CHR 0x0D]"

definition notEmpty :: "string \<Rightarrow> bool" where
  "notEmpty s = list_ex (\<lambda>c. c \<notin> set whitespace) s"

definition len :: "nat \<Rightarrow> nat \<Rightarrow> string \<Rightarrow> bool" where
  "len lo hi s = (lo \<le> length s \<and> length s \<le> hi)"

definition validate_field :: "nat \<Rightarrow> nat \<Rightarrow> string option \<Rightarrow> bool" where
  "validate_field lo hi v = (case v of None \<Rightarrow> True | Some s \<Rightarrow> notEmpty s \<and> len lo hi s)"

definition Post_validate :: "post_update \<Rightarrow> bool" where
  "Post_validate v =
     (validate_field 1 200 (upd_title v) \<and> validate_field 10 500 (upd_summary v) \<and>
      validate_field 50 10000 (upd_content v))"

definition Post_update :: "db \<Rightarrow> time \<Rightarrow> post_update \<Rightarrow> post_where \<Rightarrow> error + db" where
  "Post_update d now v w =
     (if \<not> Post_validate v then Inl SequelizeValidationError
      else Inr (d\<lparr>posts := map (\<lambda>p. if post_matches (Post_injectScope now w) p
                                     then apply_update v p else p) (posts d)\<rparr>))"

definition Post_destroy :: "db \<Rightarrow> time \<Rightarrow> post_where \<Rightarrow> db" where
  "Post_destroy d now w =
     (let gone = filter (post_matches (Post_injectScope now w)) (posts d)
      in d\<lparr>posts := filter (\<lambda>p. \<not> post_matches (Post_injectScope now w) p) (posts d),
           post_likes := filter (\<lambda>l. l_post_id l \<notin> set (map p_id gone)) (post_likes d)\<rparr>)"

text \<open>
  \<open>post.toJSON()\<close> of a row loaded with
  \<open>include: [{ model: User, attributes: ['id', 'name'] },
  { model: PostLike, where: { is_deleted: false }, required: false, attributes: ['id'] }]\<close>.
  \<open>getUserPosts\<close> gives the second include only; its rows carry no \<open>User\<close>
  (\<open>with_User = False\<close>).
\<close>

record post_data =
  pd_post :: post
  pd_User :: "(nat \<times> string) option"
  pd_PostLikes :: "nat list"

record post_view = post_data +
  pv_total_likes :: nat

record listed_post = post_view +
  allowEdit :: bool
  allowRemove :: bool

definition include_User :: "db \<Rightarrow> post \<Rightarrow> (nat \<times> string) option" where
  "include_User d p = map_option (\<lambda>u. (u_id u, u_name u)) (User_findByPk d (p_user_id p))"

definition include_PostLikes :: "db \<Rightarrow> post \<Rightarrow> nat list" where
  "include_PostLikes d p =
     map l_id (filter (like_matches (PostLike_injectScope (where_post_active (p_id p)))) (post_likes d))"

definition load_includes :: "db \<Rightarrow> bool \<Rightarrow> post \<Rightarrow> post_data" where
  "load_includes d with_User p =
     \<lparr>pd_post = p, pd_User = (if with_User then include_User d p else None),
      pd_PostLikes = include_PostLikes d p\<rparr>"

text \<open>
  \<open>Post.findAndCountAll({ where, include, limit, offset, order: [['available_at', 'DESC']],
  distinct: true })\<close>. The count query counts distinct post keys over the rows of the
  join of the selected posts with their active likes (a post without likes gives one
  row). The rows query orders the selected posts by \<open>available_at\<close> descending and
  by nothing else, so the order of posts with equal \<open>available_at\<close> is the store's
  choice: the store delivers the selected rows in some order of its own, the parameter
  \<open>scan\<close>, and the sort keeps that order among equal keys. Every order of the ties is
  the result for some \<open>scan\<close>. The query then skips \<open>offset\<close> posts and takes
  \<open>limit\<close>. The text filter \<open>Op.iLike\<close> is the store's operator, taken as the
  parameter \<open>ilike pattern_term text\<close>.
\<close>

definition search_matches :: "(string \<Rightarrow> string \<Rightarrow> bool) \<Rightarrow> string option \<Rightarrow> post \<Rightarrow> bool" where
  "search_matches ilike srch p =
     (case srch of None \<Rightarrow> True
      | Some s \<Rightarrow> ilike s (title p) \<or> ilike s (summary p) \<or> ilike s (content p))"

definition joined_rows :: "db \<Rightarrow> post list \<Rightarrow> (post \<times> nat option) list" where
  "joined_rows d ps =
     concat (map (\<lambda>p. case include_PostLikes d p of
                         [] \<Rightarrow> [(p, None)]
                       | l # ls \<Rightarrow> map (\<lambda>x. (p, Some x)) (l # ls)) ps)"

definition Post_findAndCountAll ::
  "(string \<Rightarrow> string \<Rightarrow> bool) \<Rightarrow> (post list \<Rightarrow> post list) \<Rightarrow> db \<Rightarrow> time \<Rightarrow> post_where
     \<Rightarrow> string option \<Rightarrow> bool \<Rightarrow> nat \<Rightarrow> nat \<Rightarrow> nat \<times> post_data list" where
  "Post_findAndCountAll ilike scan d now w srch with_User lim off =
     (let selected = filter (\<lambda>p. post_matches (Post_injectScope now w) p \<and> search_matches ilike srch p)
                            (posts d);
          count = length (remdups (map (\<lambda>r. p_id (fst r)) (joined_rows d selected)));
          rows = map (load_includes d with_User)
                   (take lim (drop off (sort_key (\<lambda>p. - available_at p) (scan selected))))
      in (count, rows))"

record filters =
  include_scheduled :: bool
  f_user_id :: "nat option"
  search :: "string option"

record pagination =
  limit :: nat
  offset :: nat

record list_result =
  lr_posts :: "listed_post list"
  total :: nat
  lr_limit :: nat
  lr_offset :: nat
  pages :: "nat option"

text \<open>JavaScript truthiness of an optional number and of an optional string.\<close>

definition truthy_id :: "nat option \<Rightarrow> nat option" where
  "truthy_id v = (case v of None \<Rightarrow> None | Some n \<Rightarrow> if n = 0 then None else Some n)"

definition truthy_str :: "string option \<Rightarrow> string option" where
  "truthy_str v = (case v of None \<Rightarrow> None | Some s \<Rightarrow> if s = [] then None else Some s)"

text \<open>
  \<open>PostService.listPosts\<close>; \<open>listPosts_where\<close> is the \<open>whereClause\<close> it builds
  from the filters, before the ORM merges the default scope into it. \<open>pages\<close> is \<open>Math.ceil(count / limit)\<close>, which is not
  a finite number when \<open>limit\<close> is 0 (\<open>None\<close>).
\<close>

definition listPosts_where :: "time \<Rightarrow> filters \<Rightarrow> post_where" where
  "listPosts_where now f =
     \<lparr>pw_id = None, pw_user_id = truthy_id (f_user_id f),
      pw_available_at_lte = (if \<not> include_scheduled f then Some now else None)\<rparr>"

definition listPosts ::
  "(string \<Rightarrow> string \<Rightarrow> bool) \<Rightarrow> (post list \<Rightarrow> post list) \<Rightarrow> db \<Rightarrow> time \<Rightarrow> filters
     \<Rightarrow> pagination \<Rightarrow> list_result" where
  "listPosts ilike scan d now f pg =
     (let whereClause = listPosts_where now f;
          (count, rows) =
            Post_findAndCountAll ilike scan d now whereClause (truthy_str (search f)) True
              (limit pg) (offset pg);
          posts = map (\<lambda>postData.
                    \<lparr>pd_post = pd_post postData, pd_User = pd_User postData,
                     pd_PostLikes = pd_PostLikes postData,
                     pv_total_likes = length (pd_PostLikes postData),
                     allowEdit = False, allowRemove = False\<rparr>) rows
      in \<lparr>lr_posts = posts, total = count, lr_limit = limit pg, lr_offset = offset pg,
          pages = (if limit pg = 0 then None else Some ((count + limit pg - 1) div limit pg))\<rparr>)"

text \<open>
  \<open>PostService.getUserPosts\<close>: the \<open>where\<close> always has the user, and the items
  are \<open>{ ...postData, total_likes }\<close>.
\<close>

record user_posts_result =
  up_posts :: "post_view list"
  up_total :: nat
  up_limit :: nat
  up_offset :: nat
  up_pages :: "nat option"

definition getUserPosts ::
  "(string \<Rightarrow> string \<Rightarrow> bool) \<Rightarrow> (post list \<Rightarrow> post list) \<Rightarrow> db \<Rightarrow> time \<Rightarrow> nat \<Rightarrow> filters
     \<Rightarrow> pagination \<Rightarrow> user_posts_result" where
  "getUserPosts ilike scan d now userId f pg =
     (let whereClause =
            \<lparr>pw_id = None, pw_user_id = Some userId,
             pw_available_at_lte = (if \<not> include_scheduled f then Some now else None)\<rparr>;
          (count, rows) =
            Post_findAndCountAll ilike scan d now whereClause (truthy_str (search f)) False
              (limit pg) (offset pg);
          posts = map (\<lambda>postData.
                    \<lparr>pd_post = pd_post postData, pd_User = pd_User postData,
                     pd_PostLikes = pd_PostLikes postData,
                     pv_total_likes = length (pd_PostLikes postData)\<rparr>) rows
      in \<lparr>up_posts = posts, up_total = count, up_limit = limit pg, up_offset = offset pg,
          up_pages = (if limit pg = 0 then None else Some ((count + limit pg - 1) div limit pg))\<rparr>)"

definition getPostById :: "db \<Rightarrow> time \<Rightarrow> nat \<Rightarrow> error + post_view" where
  "getPostById d now i =
     (case Post_findByPk d now i of
        None \<Rightarrow> Inl PostNotFound
      | Some post \<Rightarrow>
          (let postData = load_includes d True post
           in Inr \<lparr>pd_post = pd_post postData, pd_User = pd_User postData,
                   pd_PostLikes = pd_PostLikes postData,
                   pv_total_likes = length (pd_PostLikes postData)\<rparr>))"

text \<open>
  \<open>updatePost\<close> returns the post read back with its \<open>User\<close>, \<open>deletePost\<close> returns
  \<open>true\<close>, \<open>schedulePost\<close> returns the post read back; a read-back that finds no row
  gives \<open>null\<close> (\<open>None\<close>).
\<close>

definition updatePost ::
  "db \<Rightarrow> time \<Rightarrow> nat \<Rightarrow> post_update \<Rightarrow> nat \<Rightarrow> (error + (post \<times> (nat \<times> string) option) option) \<times> db" where
  "updatePost d now i updateData userId =
     (case Post_findByPk d now i of
        None \<Rightarrow> (Inl PostNotFound, d)
      | Some post \<Rightarrow>
          if p_user_id post \<noteq> userId then (Inl AccessDeniedEdit, d)
          else
            (case Post_update d now updateData (where_id i) of
               Inl e \<Rightarrow> (Inl e, d)
             | Inr d' \<Rightarrow>
                 (let updatedPost = map_option (\<lambda>p. (p, include_User d' p)) (Post_findByPk d' now i)
                  in (Inr updatedPost, d'))))"

definition deletePost :: "db \<Rightarrow> time \<Rightarrow> nat \<Rightarrow> nat \<Rightarrow> (error + bool) \<times> db" where
  "deletePost d now i userId =
     (case Post_findByPk d now i of
        None \<Rightarrow> (Inl PostNotFound, d)
      | Some post \<Rightarrow>
          if p_user_id post \<noteq> userId then (Inl AccessDeniedRemove, d)
          else (Inr True, Post_destroy d now (where_id i)))"

definition schedulePost :: "db \<Rightarrow> time \<Rightarrow> nat \<Rightarrow> time \<Rightarrow> nat \<Rightarrow> (error + post option) \<times> db" where
  "schedulePost d now i at userId =
     (case Post_findByPk d now i of
        None \<Rightarrow> (Inl PostNotFound, d)
      | Some post \<Rightarrow>
          if p_user_id post \<noteq> userId then (Inl AccessDeniedSchedule, d)
          else if at \<le> now then (Inl DateNotInFuture, d)
          else
            (case Post_update d now
                    \<lparr>upd_title = None, upd_summary = None, upd_content = None,
                     upd_available_at = Some at\<rparr> (where_id i) of
               Inl e \<Rightarrow> (Inl e, d)
             | Inr d' \<Rightarrow>
                 (let updatedPost = Post_findByPk d' now i
                  in (Inr updatedPost, d'))))"

text \<open>
  The \<open>catch\<close> blocks of \<open>PostController\<close>: the message equal to
  'Post nao encontrado' gives \<open>NOT_FOUND\<close>, a message that includes 'Acesso negado' gives
  \<open>AUTHORIZATION_ERROR\<close>, and, for \<open>schedulePost\<close> only, the future-date message gives
  \<open>VALIDATION_ERROR\<close>.
\<close>

fun PostController_updatePost_kind :: "error \<Rightarrow> error_kind" where
  "PostController_updatePost_kind PostNotFound = NOT_FOUND"
| "PostController_updatePost_kind AccessDeniedEdit = AUTHORIZATION_ERROR"
| "PostController_updatePost_kind AccessDeniedRemove = AUTHORIZATION_ERROR"
| "PostController_updatePost_kind AccessDeniedSchedule = AUTHORIZATION_ERROR"
| "PostController_updatePost_kind _ = INTERNAL_ERROR"

fun PostController_deletePost_kind :: "error \<Rightarrow> error_kind" where
  "PostController_deletePost_kind PostNotFound = NOT_FOUND"
| "PostController_deletePost_kind AccessDeniedEdit = AUTHORIZATION_ERROR"
| "PostController_deletePost_kind AccessDeniedRemove = AUTHORIZATION_ERROR"
| "PostController_deletePost_kind AccessDeniedSchedule = AUTHORIZATION_ERROR"
| "PostController_deletePost_kind _ = INTERNAL_ERROR"

fun PostController_schedulePost_kind :: "error \<Rightarrow> error_kind" where
  "PostController_schedulePost_kind PostNotFound = NOT_FOUND"
| "PostController_schedulePost_kind AccessDeniedEdit = AUTHORIZATION_ERROR"
| "PostController_schedulePost_kind AccessDeniedRemove = AUTHORIZATION_ERROR"
| "PostController_schedulePost_kind AccessDeniedSchedule = AUTHORIZATION_ERROR"
| "PostController_schedulePost_kind DateNotInFuture = VALIDATION_ERROR"
| "PostController_schedulePost_kind _ = INTERNAL_ERROR"

text \<open>
  \<open>schedulePostSchema\<close> (\<open>post.schema.js\<close>), which the route validates the request
  body with before the controller runs: \<open>.min(new Date())\<close> compares with the time
  \<open>loaded\<close> at which the module was loaded, and the test \<open>not-too-far\<close> compares with
  \<open>oneYearFromNow\<close>, the validation time with its calendar year advanced by one (the
  runtime's \<open>setFullYear\<close>, a parameter here).
\<close>

definition schedulePostSchema :: "time \<Rightarrow> (time \<Rightarrow> time) \<Rightarrow> time \<Rightarrow> time \<Rightarrow> bool" where
  "schedulePostSchema loaded oneYearFrom now at = (loaded \<le> at \<and> at \<le> oneYearFrom now)"

section \<open>The controllers and the schedule route\<close>

text \<open>
  What a handler answers: \<open>Inl\<close> the \<open>type_error\<close> of an error response, \<open>Inr\<close>
  the payload of a 200 response, paired with the store after the request.
  \<open>PostController.updatePost\<close> and \<open>PostController.schedulePost\<close> call
  \<open>.toJSON()\<close> on what the service returned inside their \<open>try\<close>; on \<open>null\<close>
  that is a \<open>TypeError\<close>, whose message matches none of the tests of the \<open>catch\<close>
  block, so the answer is \<open>INTERNAL_ERROR\<close> (status 500).
\<close>

definition PostController_updatePost ::
  "db \<Rightarrow> time \<Rightarrow> nat \<Rightarrow> post_update \<Rightarrow> nat \<Rightarrow> (error_kind + post \<times> (nat \<times> string) option) \<times> db" where
  "PostController_updatePost d now i updateData userId =
     (case updatePost d now i updateData userId of
        (Inl e, d') \<Rightarrow> (Inl (PostController_updatePost_kind e), d')
      | (Inr None, d') \<Rightarrow> (Inl (PostController_updatePost_kind TypeError), d')
      | (Inr (Some updatedPost), d') \<Rightarrow> (Inr updatedPost, d'))"

definition PostController_deletePost ::
  "db \<Rightarrow> time \<Rightarrow> nat \<Rightarrow> nat \<Rightarrow> (error_kind + bool) \<times> db" where
  "PostController_deletePost d now i userId =
     (case deletePost d now i userId of
        (Inl e, d') \<Rightarrow> (Inl (PostController_deletePost_kind e), d')
      | (Inr ok, d') \<Rightarrow> (Inr ok, d'))"

definition PostController_schedulePost ::
  "db \<Rightarrow> time \<Rightarrow> nat \<Rightarrow> time \<Rightarrow> nat \<Rightarrow> (error_kind + post) \<times> db" where
  "PostController_schedulePost d now i at userId =
     (case schedulePost d now i at userId of
        (Inl e, d') \<Rightarrow> (Inl (PostController_schedulePost_kind e), d')
      | (Inr None, d') \<Rightarrow> (Inl (PostController_schedulePost_kind TypeError), d')
      | (Inr (Some scheduledPost), d') \<Rightarrow> (Inr scheduledPost, d'))"

definition LikeController_removeLike ::
  "db \<Rightarrow> nat \<Rightarrow> nat \<Rightarrow> (error_kind + bool) \<times> db" where
  "LikeController_removeLike d likeId userId =
     (case removeLike d likeId userId of
        (Inl e, d') \<Rightarrow> (Inl (LikeController_removeLike_kind e), d')
      | (Inr ok, d') \<Rightarrow> (Inr ok, d'))"

text \<open>
  The route \<open>PUT /posts/:id/schedule\<close> for an authenticated caller: the body is
  validated with \<open>schedulePostSchema\<close> (a failure is answered 400
  \<open>VALIDATION_ERROR\<close> by \<open>SchemaValidator\<close>), then the controller runs.
\<close>

definition PUT_posts_schedule ::
  "time \<Rightarrow> (time \<Rightarrow> time) \<Rightarrow> db \<Rightarrow> time \<Rightarrow> nat \<Rightarrow> time \<Rightarrow> nat \<Rightarrow> (error_kind + post) \<times> db" where
  "PUT_posts_schedule loaded oneYearFrom d now i at userId =
     (if schedulePostSchema loaded oneYearFrom now at
      then PostController_schedulePost d now i at userId
      else (Inl VALIDATION_ERROR, d))"

section \<open>AuthUtils and UserService\<close>

text \<open>
  \<open>AuthUtils.validatePasswordStrength\<close>. Passwords are ASCII strings here, so
  \<open>length\<close> and \<open>toLowerCase\<close> are those of the characters.
\<close>

record strength =
  isValid :: bool
  score :: nat
  feedback :: "feedback_item list"

definition has_char_in :: "string \<Rightarrow> string \<Rightarrow> bool" where
  "has_char_in cls s = list_ex (\<lambda>c. c \<in> set cls) s"

definition toLowerCase :: "string \<Rightarrow> string" where
  "toLowerCase s =
     map (\<lambda>c. case map_of (zip ''ABCDEFGHIJKLMNOPQRSTUVWXYZ'' ''abcdefghijklmnopqrstuvwxyz'') c of
                 None \<Rightarrow> c | Some l \<Rightarrow> l) s"

definition commonPasswords :: "string list" where
  "commonPasswords = [''123456'', ''password'', ''123456789'', ''12345678'', ''12345'']"

definition specialChars :: string where
  "specialChars = ''!@#$%^&*(),.?'' @ [CHR 0x22] @ '':{}|<>''"

definition credit :: "bool \<Rightarrow> feedback_item \<Rightarrow> strength \<Rightarrow> strength" where
  "credit ok item r =
     (if ok then r\<lparr>score := score r + 1\<rparr> else r\<lparr>feedback := feedback r @ [item]\<rparr>)"

definition validatePasswordStrength :: "string \<Rightarrow> strength" where
  "validatePasswordStrength password =
     (let r0 = \<lparr>isValid = True, score = 0, feedback = []\<rparr>;
          r1 = (if length password < 6 then r0\<lparr>isValid := False, feedback := feedback r0 @ [TooShort]\<rparr>
                else r0\<lparr>score := score r0 + 1\<rparr>);
          r2 = (if length password \<ge> 8 then r1\<lparr>score := score r1 + 1\<rparr> else r1);
          r3 = credit (has_char_in ''abcdefghijklmnopqrstuvwxyz'' password) AddLowercase r2;
          r4 = credit (has_char_in ''ABCDEFGHIJKLMNOPQRSTUVWXYZ'' password) AddUppercase r3;
          r5 = credit (has_char_in ''0123456789'' password) AddDigits r4;
          r6 = credit (has_char_in specialChars password) AddSpecial r5
      in if toLowerCase password \<in> set commonPasswords
         then r6\<lparr>isValid := False, feedback := feedback r6 @ [TooCommon]\<rparr> else r6)"

text \<open>
  \<open>UserService.authenticateUser\<close>. \<open>compare plain digest\<close> is the password hasher's
  comparison (\<open>bcrypt.compare\<close>) and \<open>generateToken (id, email, name)\<close> the token
  signer, which may fail; both are parameters. On success the user is returned without
  its hash, as \<open>(id, name, email)\<close>, with the token.
\<close>

definition authenticateUser ::
  "(string \<Rightarrow> string \<Rightarrow> bool) \<Rightarrow> (nat \<times> string \<times> string \<Rightarrow> string option) \<Rightarrow> db \<Rightarrow> string \<Rightarrow> string
     \<Rightarrow> error + ((nat \<times> string \<times> string) \<times> string)" where
  "authenticateUser compare generateToken d email password =
     (case User_findOne_email d email of
        None \<Rightarrow> Inl InvalidCredentials
      | Some user \<Rightarrow>
          if \<not> compare password (password_hash user) then Inl InvalidCredentials
          else
            (case generateToken (u_id user, u_email user, u_name user) of
               None \<Rightarrow> Inl TokenError
             | Some token \<Rightarrow> Inr ((u_id user, u_name user, u_email user), token)))"

text \<open>The \<open>catch\<close> block of \<open>AuthController.login\<close>.\<close>

fun AuthController_login_kind :: "error \<Rightarrow> error_kind" where
  "AuthController_login_kind InvalidCredentials = AUTHENTICATION_ERROR"
| "AuthController_login_kind _ = INTERNAL_ERROR"

text \<open>
  \<open>UserService.changePassword\<close>. The user is read by id, then again by the email of
  that row (reading \<open>.email\<close> of \<open>null\<close> is a \<open>TypeError\<close>). What the final
  \<open>UserRepository.update(id, { password: newPassword })\<close> does to the store is the
  ORM's and is the parameter \<open>User_update_password\<close>.
\<close>

definition changePassword ::
  "(string \<Rightarrow> string \<Rightarrow> bool) \<Rightarrow> (db \<Rightarrow> nat \<Rightarrow> string \<Rightarrow> db) \<Rightarrow> db \<Rightarrow> nat \<Rightarrow> string \<Rightarrow> string
     \<Rightarrow> (error + bool) \<times> db" where
  "changePassword compare User_update_password d i currentPassword newPassword =
     (case User_findByPk d i of
        None \<Rightarrow> (Inl TypeError, d)
      | Some byId \<Rightarrow>
          (case User_findOne_email d (u_email byId) of
             None \<Rightarrow> (Inl UserNotFound, d)
           | Some user \<Rightarrow>
               if \<not> compare currentPassword (password_hash user) then (Inl WrongCurrentPassword, d)
               else
                 (let passwordValidation = validatePasswordStrength newPassword
                  in if \<not> isValid passwordValidation
                     then (Inl (InvalidNewPassword (feedback passwordValidation)), d)
                     else if currentPassword = newPassword then (Inl SamePassword, d)
                     else (Inr True, User_update_password d i newPassword))))"

text \<open>Stores used as concrete inputs.\<close>

definition alice :: user where
  "alice = \<lparr>u_id = 1, u_name = ''Alice'', u_email = ''alice@example.com'', password_hash = ''h1''\<rparr>"

definition bob :: user where
  "bob = \<lparr>u_id = 2, u_name = ''Bob'', u_email = ''bob@example.com'', password_hash = ''h2''\<rparr>"

definition some_summary :: string where
  "some_summary = ''A summary of the post''"

definition some_content :: string where
  "some_content = ''The content of the post, which is at least fifty characters long.''"

definition post_x :: post where
  "post_x = \<lparr>p_id = 1, p_user_id = 1, title = ''X'', summary = some_summary,
             content = some_content, available_at = 50\<rparr>"

definition post_later :: post where
  "post_later = \<lparr>p_id = 2, p_user_id = 1, title = ''Y'', summary = some_summary,
                 content = some_content, available_at = 900\<rparr>"

definition db0 :: db where
  "db0 = \<lparr>users = [alice, bob], posts = [post_x, post_later], post_likes = [],
          post_likes_seq = 1\<rparr>"

definition like_bob_x :: post_like where
  "like_bob_x = \<lparr>l_id = 1, l_user_id = 2, l_post_id = 1, liked_at = 60, is_deleted = False\<rparr>"

definition db_liked :: db where
  "db_liked = \<lparr>users = [alice, bob], posts = [post_x, post_later], post_likes = [like_bob_x],
               post_likes_seq = 2\<rparr>"

definition post_b :: post where
  "post_b = \<lparr>p_id = 2, p_user_id = 2, title = ''B'', summary = some_summary,
             content = some_content, available_at = 50\<rparr>"

definition db_ties :: db where
  "db_ties = \<lparr>users = [alice, bob], posts = [post_x, post_b], post_likes = [like_bob_x],
              post_likes_seq = 2\<rparr>"

text \<open>
  Two ways for the store to deliver selected rows, in key order and in the opposite
  order; and the year after, for a time in a year of 365 days.
\<close>

definition as_stored :: "post list \<Rightarrow> post list" where
  "as_stored ps = ps"

definition backwards :: "post list \<Rightarrow> post list" where
  "backwards ps = rev ps"

definition plus_365_days :: "time \<Rightarrow> time" where
  "plus_365_days t = t + 365 * 86400000"

definition no_filters :: filters where
  "no_filters = \<lparr>include_scheduled = False, f_user_id = None, search = None\<rparr>"

definition with_scheduled :: filters where
  "with_scheduled = \<lparr>include_scheduled = True, f_user_id = None, search = None\<rparr>"

definition first_page :: pagination where
  "first_page = \<lparr>limit = 5, offset = 0\<rparr>"

definition never :: "string \<Rightarrow> string \<Rightarrow> bool" where
  "never pat txt = False"

definition calls3 :: "(time \<times> nat \<times> nat) list" where
  "calls3 = [(100, 1, 2), (101, 1, 2), (102, 1, 2), (103, 1, 1)]"

text \<open>
  Concrete parameters: a hasher whose digest is the plain text, and an update that
  stores the new password as the digest.
\<close>

definition carol :: user where
  "carol = \<lparr>u_id = 3, u_name = ''Carol'', u_email = ''carol@example.com'',
            password_hash = ''Abcdef1!''\<rparr>"

definition db_pw :: db where
  "db_pw = \<lparr>users = [alice, carol], posts = [], post_likes = [], post_likes_seq = 1\<rparr>"

definition same_text :: "string \<Rightarrow> string \<Rightarrow> bool" where
  "same_text plain digest = (digest = plain)"

definition overwrite_hash :: "db \<Rightarrow> nat \<Rightarrow> string \<Rightarrow> db" where
  "overwrite_hash d i pw =
     d\<lparr>users := map (\<lambda>u. if u_id u = i then u\<lparr>password_hash := pw\<rparr> else u) (users d)\<rparr>"

text \<open>An update of the title only, and one whose title is empty.\<close>

definition retitle :: post_update where
  "retitle = \<lparr>upd_title = Some ''T'', upd_summary = None, upd_content = None,
              upd_available_at = None\<rparr>"

definition blank_title :: post_update where
  "blank_title = \<lparr>upd_title = Some [], upd_summary = None, upd_content = None,
                  upd_available_at = None\<rparr>"

section \<open>What the scoped finders select\<close>

lemma like_matches_post_user:
  "like_matches (PostLike_injectScope (where_post_user p u)) l =
     (l_post_id l = p \<and> l_user_id l = u \<and> \<not> is_deleted l)"
  by (auto simp: like_matches_def PostLike_injectScope_def PostLike_defaultScope_def
      where_post_user_def merge_key_def holds_key_def)

lemma like_matches_post_active:
  "like_matches (PostLike_injectScope (where_post_active p)) l =
     (l_post_id l = p \<and> \<not> is_deleted l)"
  by (auto simp: like_matches_def PostLike_injectScope_def PostLike_defaultScope_def
      where_post_active_def merge_key_def holds_key_def)

lemma like_matches_id_user:
  "like_matches (PostLike_injectScope (where_id_user i u)) l =
     (l_id l = i \<and> l_user_id l = u \<and> \<not> is_deleted l)"
  by (auto simp: like_matches_def PostLike_injectScope_def PostLike_defaultScope_def
      where_id_user_def merge_key_def holds_key_def)

lemma post_matches_id:
  "post_matches (Post_injectScope now (where_id i)) p = (p_id p = i \<and> available_at p \<le> now)"
  by (auto simp: post_matches_def Post_injectScope_def Post_defaultScope_def where_id_def
      merge_key_def holds_key_def)

lemma Post_findByPk_None:
  "(Post_findByPk d now i = None) =
     (\<not> (\<exists>p \<in> set (posts d). p_id p = i \<and> available_at p \<le> now))"
  by (auto simp: Post_findByPk_def find_None_iff post_matches_id)

lemma Post_findByPk_Some:
  "Post_findByPk d now i = Some p \<Longrightarrow> p \<in> set (posts d) \<and> p_id p = i \<and> available_at p \<le> now"
  by (auto simp: Post_findByPk_def find_Some_iff post_matches_id)

lemma User_findByPk_None:
  "(User_findByPk d i = None) = (\<not> (\<exists>u \<in> set (users d). u_id u = i))"
  by (auto simp: User_findByPk_def find_None_iff)

lemma PostLike_findOne_post_user_None:
  "(PostLike_findOne d (where_post_user p u) = None) =
     (\<not> (\<exists>l \<in> set (post_likes d). l_post_id l = p \<and> l_user_id l = u \<and> \<not> is_deleted l))"
  by (auto simp: PostLike_findOne_def find_None_iff like_matches_post_user)

lemma PostLike_count_post_active:
  "PostLike_count d (where_post_active p) =
     length (filter (\<lambda>l. l_post_id l = p \<and> \<not> is_deleted l) (post_likes d))"
proof -
  have "like_matches (PostLike_injectScope (where_post_active p)) =
          (\<lambda>l. l_post_id l = p \<and> \<not> is_deleted l)"
    by (rule ext) (rule like_matches_post_active)
  then show ?thesis by (simp add: PostLike_count_def)
qed

lemma find_unique_key:
  "distinct (map k xs) \<Longrightarrow> x \<in> set xs \<Longrightarrow> k x = i \<Longrightarrow> P x \<Longrightarrow> (\<And>y. P y \<Longrightarrow> k y = i) \<Longrightarrow>
     find P xs = Some x"
proof (induction xs)
  case Nil
  then show ?case by simp
next
  case (Cons a xs)
  show ?case
  proof (cases "P a")
    case True
    then have "k a = i" using Cons.prems(5) by blast
    then have "a = x" using Cons.prems(1,2,3) by (cases "x = a") (auto simp: image_iff)
    then show ?thesis using True by simp
  next
    case False
    then have "x \<in> set xs" using Cons.prems(2,4) by auto
    then show ?thesis using False Cons by simp
  qed
qed

lemmas store_defs =
  db0_def alice_def bob_def post_x_def post_later_def

lemmas like_eval =
  toggleLike_def Post_findByPk_def User_findByPk_def PostLike_findOne_def PostLike_create_def
  PostLike_save_def PostLike_count_def toggle_def Let_def post_matches_id like_matches_post_user
  like_matches_post_active

section \<open>toggleLike\<close>

lemma toggleLike_success_total:
  "toggleLike d now postId userId = (Inr r, d') \<Longrightarrow>
     total_likes r = length (filter (\<lambda>l. l_post_id l = postId \<and> \<not> is_deleted l) (post_likes d'))"
  by (auto simp: toggleLike_def Let_def PostLike_count_post_active
      split: option.splits prod.splits sum.splits)

lemma toggleLike_post_missing:
  "\<not> (\<exists>p \<in> set (posts d). p_id p = postId \<and> available_at p \<le> now) \<Longrightarrow>
     toggleLike d now postId userId = (Inl PostNotFound, d)"
  using Post_findByPk_None[of d now postId] by (simp add: toggleLike_def)

lemma toggleLike_user_missing:
  "\<exists>p \<in> set (posts d). p_id p = postId \<and> available_at p \<le> now \<Longrightarrow>
   \<not> (\<exists>u \<in> set (users d). u_id u = userId) \<Longrightarrow>
     toggleLike d now postId userId = (Inl UserNotFound, d)"
  using Post_findByPk_None[of d now postId] User_findByPk_None[of d userId]
  by (auto simp: toggleLike_def split: option.splits)

lemma toggleLike_succeeds:
  assumes "\<exists>p \<in> set (posts d). p_id p = postId \<and> available_at p \<le> now"
    and "\<exists>u \<in> set (users d). u_id u = userId"
    and "\<not> (\<exists>l \<in> set (post_likes d). l_post_id l = postId \<and> l_user_id l = userId \<and> is_deleted l)"
  shows "\<exists>r d'. toggleLike d now postId userId = (Inr r, d')"
proof -
  obtain post where p: "Post_findByPk d now postId = Some post"
    using assms(1) Post_findByPk_None[of d now postId] by (cases "Post_findByPk d now postId") auto
  obtain u where u: "User_findByPk d userId = Some u"
    using assms(2) User_findByPk_None[of d userId] by (cases "User_findByPk d userId") auto
  show ?thesis
  proof (cases "PostLike_findOne d (where_post_user postId userId)")
    case (Some l)
    then show ?thesis by (simp add: toggleLike_def p u Let_def)
  next
    case None
    then have "\<not> (\<exists>r \<in> set (post_likes d). l_user_id r = userId \<and> l_post_id r = postId)"
      using assms(3) by (auto simp: PostLike_findOne_post_user_None)
    then show ?thesis using None by (simp add: toggleLike_def p u PostLike_create_def Let_def)
  qed
qed

lemma PostLike_findOne_pair_unique:
  assumes "distinct (map like_pair (post_likes d))" "l \<in> set (post_likes d)"
    "l_user_id l = u" "l_post_id l = p" "\<not> is_deleted l"
  shows "PostLike_findOne d (where_post_user p u) = Some l"
  unfolding PostLike_findOne_def
  by (rule find_unique_key[where k = like_pair and i = "(u, p)"])
     (use assms in \<open>auto simp: like_matches_post_user like_pair_def\<close>)

lemma upd_same: "(l::post_like)\<lparr>is_deleted := True, liked_at := liked_at l\<rparr> = l\<lparr>is_deleted := True\<rparr>"
  by (cases l) simp

lemma PostLike_save_deleted:
  assumes "distinct (map l_id (post_likes d))" "l \<in> set (post_likes d)"
  shows "PostLike_save d (l\<lparr>is_deleted := True\<rparr>) =
           d\<lparr>post_likes := map (\<lambda>r. if l_id r = l_id l then r\<lparr>is_deleted := True\<rparr> else r)
                                 (post_likes d)\<rparr>"
proof -
  have inj: "inj_on l_id (set (post_likes d))" using assms(1) by (simp add: distinct_map)
  have u: "\<And>r. r \<in> set (post_likes d) \<Longrightarrow> l_id r = l_id l \<Longrightarrow> r = l"
    using inj assms(2) by (auto dest: inj_onD)
  have m: "map (\<lambda>r. if l_id r = l_id l then r\<lparr>is_deleted := True, liked_at := liked_at l\<rparr> else r)
               (post_likes d) =
             map (\<lambda>r. if l_id r = l_id l then r\<lparr>is_deleted := True\<rparr> else r) (post_likes d)"
  proof (rule map_cong[OF refl])
    fix r assume r: "r \<in> set (post_likes d)"
    show "(if l_id r = l_id l then r\<lparr>is_deleted := True, liked_at := liked_at l\<rparr> else r) =
          (if l_id r = l_id l then r\<lparr>is_deleted := True\<rparr> else r)"
    proof (cases "l_id r = l_id l")
      case True
      then have "r = l" using u r by blast
      then show ?thesis using upd_same by simp
    next
      case False
      then show ?thesis by simp
    qed
  qed
  show ?thesis by (simp add: PostLike_save_def m cong: if_cong)
qed

lemma toggleLike_first:
  assumes "\<exists>p \<in> set (posts d). p_id p = postId \<and> available_at p \<le> now"
    and "\<exists>u \<in> set (users d). u_id u = userId"
    and "\<not> (\<exists>l \<in> set (post_likes d). l_user_id l = userId \<and> l_post_id l = postId)"
  shows "toggleLike d now postId userId =
     (Inr \<lparr>liked = True,
           total_likes =
             Suc (length (filter (\<lambda>l. l_post_id l = postId \<and> \<not> is_deleted l) (post_likes d)))\<rparr>,
      d\<lparr>post_likes := post_likes d @
             [\<lparr>l_id = post_likes_seq d, l_user_id = userId, l_post_id = postId,
               liked_at = now, is_deleted = False\<rparr>],
        post_likes_seq := Suc (post_likes_seq d)\<rparr>)"
proof -
  obtain post where p: "Post_findByPk d now postId = Some post"
    using assms(1) Post_findByPk_None[of d now postId] by (cases "Post_findByPk d now postId") auto
  obtain u where u: "User_findByPk d userId = Some u"
    using assms(2) User_findByPk_None[of d userId] by (cases "User_findByPk d userId") auto
  have n: "PostLike_findOne d (where_post_user postId userId) = None"
    using assms(3) by (auto simp: PostLike_findOne_post_user_None)
  show ?thesis
    using assms(3)
    by (simp add: toggleLike_def p u n PostLike_create_def Let_def PostLike_count_post_active)
qed

lemma toggleLike_active:
  assumes "\<exists>p \<in> set (posts d). p_id p = postId \<and> available_at p \<le> now"
    and "\<exists>u \<in> set (users d). u_id u = userId"
    and "distinct (map l_id (post_likes d))" "distinct (map like_pair (post_likes d))"
    and "l \<in> set (post_likes d)" "l_user_id l = userId" "l_post_id l = postId" "\<not> is_deleted l"
  shows "toggleLike d now postId userId =
     (Inr \<lparr>liked = False,
           total_likes =
             length (filter (\<lambda>r. l_post_id r = postId \<and> \<not> is_deleted r)
               (map (\<lambda>r. if l_id r = l_id l then r\<lparr>is_deleted := True\<rparr> else r) (post_likes d)))\<rparr>,
      d\<lparr>post_likes := map (\<lambda>r. if l_id r = l_id l then r\<lparr>is_deleted := True\<rparr> else r)
                            (post_likes d)\<rparr>)"
proof -
  obtain post where p: "Post_findByPk d now postId = Some post"
    using assms(1) Post_findByPk_None[of d now postId] by (cases "Post_findByPk d now postId") auto
  obtain u where u: "User_findByPk d userId = Some u"
    using assms(2) User_findByPk_None[of d userId] by (cases "User_findByPk d userId") auto
  have f: "PostLike_findOne d (where_post_user postId userId) = Some l"
    using PostLike_findOne_pair_unique[OF assms(4,5,6,7,8)] .
  have t: "toggle l now = l\<lparr>is_deleted := True\<rparr>"
    using assms(8) by (simp add: toggle_def Let_def)
  show ?thesis
    by (simp add: toggleLike_def p u f t Let_def PostLike_save_deleted[OF assms(3,5)]
        PostLike_count_post_active)
qed

lemma count_after_deactivation:
  assumes "distinct (map l_id xs)" "l \<in> set xs" "l_post_id l = p" "\<not> is_deleted l"
  shows "Suc (length (filter (\<lambda>r. l_post_id r = p \<and> \<not> is_deleted r)
            (map (\<lambda>r. if l_id r = l_id l then r\<lparr>is_deleted := True\<rparr> else r) xs))) =
         length (filter (\<lambda>r. l_post_id r = p \<and> \<not> is_deleted r) xs)"
  using assms
proof (induction xs)
  case Nil
  then show ?case by simp
next
  case (Cons a xs)
  show ?case
  proof (cases "a = l")
    case True
    then have n: "l_id l \<notin> l_id ` set xs" using Cons.prems(1) by simp
    have "map (\<lambda>r. if l_id r = l_id l then r\<lparr>is_deleted := True\<rparr> else r) xs = xs"
    proof (rule map_idI)
      fix x assume x: "x \<in> set xs"
      have "l_id x \<in> l_id ` set xs" using x by (rule imageI)
      then have "l_id x \<noteq> l_id l" using n by metis
      then show "(if l_id x = l_id l then x\<lparr>is_deleted := True\<rparr> else x) = x" by simp
    qed
    then show ?thesis using True Cons.prems(3,4) by simp
  next
    case False
    then have l: "l \<in> set xs" using Cons.prems(2) by simp
    have "l_id l \<in> l_id ` set xs" using l by (rule imageI)
    then have "l_id a \<noteq> l_id l" using Cons.prems(1) by auto
    then show ?thesis using Cons.IH[OF _ l Cons.prems(3,4)] Cons.prems(1) by simp
  qed
qed

text \<open>
  C1, as the code has it: \<open>toggleLike\<close> fails with the post-not-found error, which the
  controller reports as \<open>NOT_FOUND\<close>, when no post with that id is available at the time
  of the call (no such row, or its \<open>available_at\<close> is later than now: the default scope of
  \<open>Post\<close> hides it); it fails with the user-not-found error, also \<open>NOT_FOUND\<close>, when
  the post is available and the user does not exist. These failures leave the store as it
  was. When the post is available and the user exists:
  \<^item> if the pair has no like row, the call appends the row (next key, \<open>liked_at\<close> now,
    active) and returns \<open>liked = true\<close> with \<open>total_likes\<close> one more than the number
    of active rows of the post before;
  \<^item> if the pair has an active row (keys and pairs unique in the store), the call marks
    that row deleted, changes nothing else, and returns \<open>liked = false\<close> with
    \<open>total_likes\<close> the number of active rows of the post in the store so changed, which
    is one less than before;
  \<^item> whenever the pair has no deactivated row the call succeeds, and \<open>total_likes\<close> is
    the number of rows of that post with \<open>is_deleted = false\<close> in the store after the
    call.
\<close>

theorem toggleLike_contract:
  "(\<not> (\<exists>p \<in> set (posts d). p_id p = postId \<and> available_at p \<le> now) \<longrightarrow>
      toggleLike d now postId userId = (Inl PostNotFound, d) \<and>
      LikeController_toggleLike_kind PostNotFound = NOT_FOUND) \<and>
   ((\<exists>p \<in> set (posts d). p_id p = postId \<and> available_at p \<le> now) \<and>
    \<not> (\<exists>u \<in> set (users d). u_id u = userId) \<longrightarrow>
      toggleLike d now postId userId = (Inl UserNotFound, d) \<and>
      LikeController_toggleLike_kind UserNotFound = NOT_FOUND) \<and>
   ((\<exists>p \<in> set (posts d). p_id p = postId \<and> available_at p \<le> now) \<and>
    (\<exists>u \<in> set (users d). u_id u = userId) \<and>
    \<not> (\<exists>l \<in> set (post_likes d). l_user_id l = userId \<and> l_post_id l = postId) \<longrightarrow>
      toggleLike d now postId userId =
        (Inr \<lparr>liked = True,
              total_likes =
                Suc (length (filter (\<lambda>l. l_post_id l = postId \<and> \<not> is_deleted l) (post_likes d)))\<rparr>,
         d\<lparr>post_likes := post_likes d @
                [\<lparr>l_id = post_likes_seq d, l_user_id = userId, l_post_id = postId,
                  liked_at = now, is_deleted = False\<rparr>],
           post_likes_seq := Suc (post_likes_seq d)\<rparr>)) \<and>
   (\<forall>l \<in> set (post_likes d).
      (\<exists>p \<in> set (posts d). p_id p = postId \<and> available_at p \<le> now) \<and>
      (\<exists>u \<in> set (users d). u_id u = userId) \<and>
      distinct (map l_id (post_likes d)) \<and> distinct (map like_pair (post_likes d)) \<and>
      l_user_id l = userId \<and> l_post_id l = postId \<and> \<not> is_deleted l \<longrightarrow>
      toggleLike d now postId userId =
        (Inr \<lparr>liked = False,
              total_likes =
                length (filter (\<lambda>r. l_post_id r = postId \<and> \<not> is_deleted r)
                  (map (\<lambda>r. if l_id r = l_id l then r\<lparr>is_deleted := True\<rparr> else r) (post_likes d)))\<rparr>,
         d\<lparr>post_likes := map (\<lambda>r. if l_id r = l_id l then r\<lparr>is_deleted := True\<rparr> else r)
                               (post_likes d)\<rparr>) \<and>
      Suc (length (filter (\<lambda>r. l_post_id r = postId \<and> \<not> is_deleted r)
             (map (\<lambda>r. if l_id r = l_id l then r\<lparr>is_deleted := True\<rparr> else r) (post_likes d)))) =
        length (filter (\<lambda>r. l_post_id r = postId \<and> \<not> is_deleted r) (post_likes d))) \<and>
   ((\<exists>p \<in> set (posts d). p_id p = postId \<and> available_at p \<le> now) \<and>
    (\<exists>u \<in> set (users d). u_id u = userId) \<and>
    \<not> (\<exists>l \<in> set (post_likes d). l_post_id l = postId \<and> l_user_id l = userId \<and> is_deleted l) \<longrightarrow>
      (\<exists>r d'. toggleLike d now postId userId = (Inr r, d') \<and>
         total_likes r =
           length (filter (\<lambda>l. l_post_id l = postId \<and> \<not> is_deleted l) (post_likes d'))))"
proof -
  have a: "\<not> (\<exists>p \<in> set (posts d). p_id p = postId \<and> available_at p \<le> now) \<longrightarrow>
      toggleLike d now postId userId = (Inl PostNotFound, d) \<and>
      LikeController_toggleLike_kind PostNotFound = NOT_FOUND"
    using toggleLike_post_missing[of d postId now userId] by simp
  have b: "(\<exists>p \<in> set (posts d). p_id p = postId \<and> available_at p \<le> now) \<and>
    \<not> (\<exists>u \<in> set (users d). u_id u = userId) \<longrightarrow>
      toggleLike d now postId userId = (Inl UserNotFound, d) \<and>
      LikeController_toggleLike_kind UserNotFound = NOT_FOUND"
    using toggleLike_user_missing[of d postId now userId] by simp
  have c: "(\<exists>p \<in> set (posts d). p_id p = postId \<and> available_at p \<le> now) \<and>
    (\<exists>u \<in> set (users d). u_id u = userId) \<and>
    \<not> (\<exists>l \<in> set (post_likes d). l_user_id l = userId \<and> l_post_id l = postId) \<longrightarrow>
      toggleLike d now postId userId =
        (Inr \<lparr>liked = True,
              total_likes =
                Suc (length (filter (\<lambda>l. l_post_id l = postId \<and> \<not> is_deleted l) (post_likes d)))\<rparr>,
         d\<lparr>post_likes := post_likes d @
                [\<lparr>l_id = post_likes_seq d, l_user_id = userId, l_post_id = postId,
                  liked_at = now, is_deleted = False\<rparr>],
           post_likes_seq := Suc (post_likes_seq d)\<rparr>)"
    using toggleLike_first[of d postId now userId] by blast
  have e: "\<forall>l \<in> set (post_likes d).
      (\<exists>p \<in> set (posts d). p_id p = postId \<and> available_at p \<le> now) \<and>
      (\<exists>u \<in> set (users d). u_id u = userId) \<and>
      distinct (map l_id (post_likes d)) \<and> distinct (map like_pair (post_likes d)) \<and>
      l_user_id l = userId \<and> l_post_id l = postId \<and> \<not> is_deleted l \<longrightarrow>
      toggleLike d now postId userId =
        (Inr \<lparr>liked = False,
              total_likes =
                length (filter (\<lambda>r. l_post_id r = postId \<and> \<not> is_deleted r)
                  (map (\<lambda>r. if l_id r = l_id l then r\<lparr>is_deleted := True\<rparr> else r) (post_likes d)))\<rparr>,
         d\<lparr>post_likes := map (\<lambda>r. if l_id r = l_id l then r\<lparr>is_deleted := True\<rparr> else r)
                               (post_likes d)\<rparr>) \<and>
      Suc (length (filter (\<lambda>r. l_post_id r = postId \<and> \<not> is_deleted r)
             (map (\<lambda>r. if l_id r = l_id l then r\<lparr>is_deleted := True\<rparr> else r) (post_likes d)))) =
        length (filter (\<lambda>r. l_post_id r = postId \<and> \<not> is_deleted r) (post_likes d))"
    using toggleLike_active[of d postId now userId] count_after_deactivation[of "post_likes d" _ postId]
    by blast
  have g: "(\<exists>p \<in> set (posts d). p_id p = postId \<and> available_at p \<le> now) \<and>
    (\<exists>u \<in> set (users d). u_id u = userId) \<and>
    \<not> (\<exists>l \<in> set (post_likes d). l_post_id l = postId \<and> l_user_id l = userId \<and> is_deleted l) \<longrightarrow>
      (\<exists>r d'. toggleLike d now postId userId = (Inr r, d') \<and>
         total_likes r =
           length (filter (\<lambda>l. l_post_id l = postId \<and> \<not> is_deleted l) (post_likes d')))"
  proof
    assume h: "(\<exists>p \<in> set (posts d). p_id p = postId \<and> available_at p \<le> now) \<and>
      (\<exists>u \<in> set (users d). u_id u = userId) \<and>
      \<not> (\<exists>l \<in> set (post_likes d). l_post_id l = postId \<and> l_user_id l = userId \<and> is_deleted l)"
    then obtain r d' where "toggleLike d now postId userId = (Inr r, d')"
      using toggleLike_succeeds[of d postId now userId] by blast
    then show "\<exists>r d'. toggleLike d now postId userId = (Inr r, d') \<and>
         total_likes r =
           length (filter (\<lambda>l. l_post_id l = postId \<and> \<not> is_deleted l) (post_likes d'))"
      using toggleLike_success_total by blast
  qed
  show ?thesis using a b c e g by blast
qed

lemmas liked_defs =
  db_liked_def like_bob_x_def alice_def bob_def post_x_def post_later_def

theorem toggleLike_contract_witness:
  "toggleLike db0 100 7 1 = (Inl PostNotFound, db0) \<and>
   toggleLike db0 100 1 9 = (Inl UserNotFound, db0) \<and>
   toggleLike db0 100 1 2 =
     (Inr \<lparr>liked = True, total_likes = 1\<rparr>,
      db0\<lparr>post_likes := [\<lparr>l_id = 1, l_user_id = 2, l_post_id = 1, liked_at = 100,
                           is_deleted = False\<rparr>],
          post_likes_seq := 2\<rparr>) \<and>
   toggleLike db_liked 100 1 2 =
     (Inr \<lparr>liked = False, total_likes = 0\<rparr>,
      db_liked\<lparr>post_likes := [like_bob_x\<lparr>is_deleted := True\<rparr>]\<rparr>)"
proof -
  have p7: "\<not> (\<exists>p \<in> set (posts db0). p_id p = 7 \<and> available_at p \<le> 100)"
    by (simp add: store_defs)
  have p1: "\<exists>p \<in> set (posts db0). p_id p = 1 \<and> available_at p \<le> 100"
    by (simp add: store_defs)
  have u9: "\<not> (\<exists>u \<in> set (users db0). u_id u = 9)"
    by (simp add: store_defs)
  have u2: "\<exists>u \<in> set (users db0). u_id u = 2"
    by (simp add: store_defs)
  have l0: "\<not> (\<exists>l \<in> set (post_likes db0). l_user_id l = 2 \<and> l_post_id l = 1)"
    by (simp add: store_defs)
  have q1: "\<exists>p \<in> set (posts db_liked). p_id p = 1 \<and> available_at p \<le> 100"
    by (simp add: liked_defs)
  have v2: "\<exists>u \<in> set (users db_liked). u_id u = 2"
    by (simp add: liked_defs)
  have k: "distinct (map l_id (post_likes db_liked))" "distinct (map like_pair (post_likes db_liked))"
    "like_bob_x \<in> set (post_likes db_liked)"
    by (simp_all add: liked_defs)
  have m: "l_user_id like_bob_x = 2" "l_post_id like_bob_x = 1" "\<not> is_deleted like_bob_x"
    by (simp_all add: liked_defs)
  have a: "toggleLike db0 100 7 1 = (Inl PostNotFound, db0)"
    using toggleLike_contract[where d = db0 and postId = 7 and now = 100 and userId = 1] p7
    by blast
  have b: "toggleLike db0 100 1 9 = (Inl UserNotFound, db0)"
    using toggleLike_contract[where d = db0 and postId = 1 and now = 100 and userId = 9] p1 u9
    by blast
  have "toggleLike db0 100 1 2 =
        (Inr \<lparr>liked = True,
              total_likes =
                Suc (length (filter (\<lambda>l. l_post_id l = 1 \<and> \<not> is_deleted l) (post_likes db0)))\<rparr>,
         db0\<lparr>post_likes := post_likes db0 @
                [\<lparr>l_id = post_likes_seq db0, l_user_id = 2, l_post_id = 1,
                  liked_at = 100, is_deleted = False\<rparr>],
           post_likes_seq := Suc (post_likes_seq db0)\<rparr>)"
    using toggleLike_contract[where d = db0 and postId = 1 and now = 100 and userId = 2] p1 u2 l0
    by blast
  then have c: "toggleLike db0 100 1 2 =
     (Inr \<lparr>liked = True, total_likes = 1\<rparr>,
      db0\<lparr>post_likes := [\<lparr>l_id = 1, l_user_id = 2, l_post_id = 1, liked_at = 100,
                           is_deleted = False\<rparr>],
          post_likes_seq := 2\<rparr>)"
    by (simp add: db0_def)
  have "toggleLike db_liked 100 1 2 =
        (Inr \<lparr>liked = False,
              total_likes =
                length (filter (\<lambda>r. l_post_id r = 1 \<and> \<not> is_deleted r)
                  (map (\<lambda>r. if l_id r = l_id like_bob_x then r\<lparr>is_deleted := True\<rparr> else r)
                     (post_likes db_liked)))\<rparr>,
         db_liked\<lparr>post_likes := map (\<lambda>r. if l_id r = l_id like_bob_x then r\<lparr>is_deleted := True\<rparr> else r)
                               (post_likes db_liked)\<rparr>)"
    using toggleLike_contract[where d = db_liked and postId = 1 and now = 100 and userId = 2]
      q1 v2 k m
    by blast
  then have e: "toggleLike db_liked 100 1 2 =
     (Inr \<lparr>liked = False, total_likes = 0\<rparr>,
      db_liked\<lparr>post_likes := [like_bob_x\<lparr>is_deleted := True\<rparr>]\<rparr>)"
    by (simp add: db_liked_def like_bob_x_def)
  show ?thesis using a b c e by blast
qed

text \<open>
  The claim as stated fails on a scheduled post: post 2 and user 1 both exist, yet at
  time 100 the post (available at 900) is not found.
\<close>

theorem toggleLike_scheduled_post_counterexample:
  "map p_id (posts db0) = [1, 2] \<and> map u_id (users db0) = [1, 2] \<and>
   toggleLike db0 100 2 1 = (Inl PostNotFound, db0)"
  by (simp add: store_defs like_eval)

text \<open>
  C2, evaluated: from the NONE state of (user 2, post 1), the first call creates the row
  and returns \<open>liked = true\<close> with one like, the second deactivates it and returns
  \<open>liked = false\<close> with none, and the third is rejected: the scoped lookup does not see
  the deactivated row, so the service inserts again and the unique index refuses the
  insert. The like rows after the third call are those after the second; the refused
  insert has only used up a key.
\<close>

theorem toggleLike_third_call_rejected:
  "(let (r1, d1) = toggleLike db0 100 1 2;
        (r2, d2) = toggleLike d1 101 1 2;
        (r3, d3) = toggleLike d2 102 1 2
    in (r1, r2, r3, d3 = d2\<lparr>post_likes_seq := 3\<rparr>, post_likes_seq d2)) =
   (Inr \<lparr>liked = True, total_likes = 1\<rparr>, Inr \<lparr>liked = False, total_likes = 0\<rparr>,
    Inl SequelizeUniqueConstraintError, True, 2)"
  by (simp add: store_defs like_eval)

section \<open>One like row per pair\<close>

lemma PostLike_save_keys:
  "map like_key (post_likes (PostLike_save d l)) = map like_key (post_likes d)"
  by (simp add: PostLike_save_def like_key_def)

lemma PostLike_save_pairs:
  "map like_pair (post_likes (PostLike_save d l)) = map like_pair (post_likes d)"
  by (simp add: PostLike_save_def like_pair_def)

lemma PostLike_create_keys:
  "\<exists>ys. map like_key (post_likes (snd (PostLike_create d p u t b))) =
         map like_key (post_likes d) @ ys"
  by (simp add: PostLike_create_def Let_def)

lemma PostLike_create_pairs:
  "distinct (map like_pair (post_likes d)) \<Longrightarrow>
   distinct (map like_pair (post_likes (snd (PostLike_create d p u t b))))"
  by (auto simp: PostLike_create_def Let_def like_pair_def)

lemma toggleLike_db_cases:
  "snd (toggleLike d now p u) = d \<or>
   (\<exists>l. snd (toggleLike d now p u) = PostLike_save d l) \<or>
   snd (toggleLike d now p u) = snd (PostLike_create d p u now False)"
  by (auto simp: toggleLike_def Let_def split: option.splits prod.splits sum.splits)

lemma toggleLike_keys:
  "\<exists>ys. map like_key (post_likes (snd (toggleLike d now p u))) = map like_key (post_likes d) @ ys"
  using toggleLike_db_cases[of d now p u] PostLike_create_keys[of d p u now False]
  by (auto simp: PostLike_save_keys)

lemma toggleLike_pairs:
  "distinct (map like_pair (post_likes d)) \<Longrightarrow>
   distinct (map like_pair (post_likes (snd (toggleLike d now p u))))"
  using toggleLike_db_cases[of d now p u] PostLike_create_pairs[of d p u now False]
  by (auto simp: PostLike_save_pairs)

lemma toggleLikes_keys:
  "\<exists>ys. map like_key (post_likes (toggleLikes d cs)) = map like_key (post_likes d) @ ys"
proof (induction cs arbitrary: d)
  case Nil
  then show ?case by simp
next
  case (Cons c cs)
  obtain now p u where c: "c = (now, p, u)" by (cases c) auto
  obtain ys where ys:
    "map like_key (post_likes (snd (toggleLike d now p u))) = map like_key (post_likes d) @ ys"
    using toggleLike_keys by blast
  obtain zs where "map like_key (post_likes (toggleLikes (snd (toggleLike d now p u)) cs)) =
      map like_key (post_likes (snd (toggleLike d now p u))) @ zs"
    using Cons.IH by blast
  then show ?case by (simp add: c ys)
qed

lemma toggleLikes_pairs:
  "distinct (map like_pair (post_likes d)) \<Longrightarrow>
   distinct (map like_pair (post_likes (toggleLikes d cs)))"
proof (induction cs arbitrary: d)
  case Nil
  then show ?case by simp
next
  case (Cons c cs)
  obtain now p u where c: "c = (now, p, u)" by (cases c) auto
  show ?case using Cons.IH[OF toggleLike_pairs[OF Cons.prems, of now p u]] by (simp add: c)
qed

text \<open>
  C3: if the store holds at most one like row per (user, post) pair, then so does the
  store after any sequence of \<open>toggleLike\<close> calls, whatever their arguments and
  outcomes; and every like row is still there afterwards, in place, with its key, user
  and post: the rows after the calls are the rows before, possibly followed by new
  ones. No toggle removes a row.
\<close>

theorem toggleLikes_one_row_per_pair:
  "distinct (map like_pair (post_likes d)) \<Longrightarrow>
     distinct (map like_pair (post_likes (toggleLikes d cs))) \<and>
     (\<exists>ys. map like_key (post_likes (toggleLikes d cs)) = map like_key (post_likes d) @ ys)"
  using toggleLikes_pairs toggleLikes_keys by blast

lemma calls3_run:
  "map like_key (post_likes (toggleLikes db0 calls3)) = [(1, 2, 1), (3, 1, 1)]"
  by (simp add: calls3_def store_defs like_eval like_key_def)

theorem toggleLikes_one_row_per_pair_witness:
  "distinct (map like_pair (post_likes db0)) \<and>
   distinct (map like_pair (post_likes (toggleLikes db0 calls3))) \<and>
   map like_key (post_likes (toggleLikes db0 calls3)) = [(1, 2, 1), (3, 1, 1)]"
proof -
  have h: "distinct (map like_pair (post_likes db0))" by (simp add: db0_def)
  show ?thesis using h toggleLikes_one_row_per_pair[OF h, of calls3] calls3_run by simp
qed

section \<open>The toggle of a row\<close>

text \<open>
  C8: on an active row the toggle changes \<open>is_deleted\<close> only, so \<open>liked_at\<close> (and every
  other attribute) stays as it was; on an inactive row the toggle clears \<open>is_deleted\<close> and
  sets \<open>liked_at\<close> to the current time. Hence \<open>liked_at\<close> is refreshed on re-activation
  only. Saving the toggled row writes exactly that to the stored row with its key and
  leaves the other rows alone.
\<close>

theorem toggle_liked_at:
  "toggle l now =
     (if is_deleted l then l\<lparr>is_deleted := False, liked_at := now\<rparr>
      else l\<lparr>is_deleted := True\<rparr>) \<and>
   post_likes (PostLike_save d (toggle l now)) =
     map (\<lambda>r. if l_id r = l_id l
               then r\<lparr>is_deleted := \<not> is_deleted l,
                      liked_at := (if is_deleted l then now else liked_at l)\<rparr>
               else r) (post_likes d)"
  by (simp add: toggle_def PostLike_save_def Let_def)

section \<open>UserService\<close>

lemma User_findOne_email_None:
  "(User_findOne_email d e = None) = (\<not> (\<exists>u \<in> set (users d). u_email u = e))"
  by (auto simp: User_findOne_email_def find_None_iff)

text \<open>
  C9: \<open>authenticateUser\<close> rejects with the same error, 'Credenciais invalidas', when
  no user has the email and when the user found has a password that does not match; the
  login controller reports both as \<open>AUTHENTICATION_ERROR\<close>. The failure does not tell
  whether the email is registered.
\<close>

theorem authenticateUser_failure_uniform:
  "(\<not> (\<exists>u \<in> set (users d). u_email u = email) \<longrightarrow>
      authenticateUser compare generateToken d email password = Inl InvalidCredentials) \<and>
   (\<forall>user. User_findOne_email d email = Some user \<and> \<not> compare password (password_hash user) \<longrightarrow>
      authenticateUser compare generateToken d email password = Inl InvalidCredentials) \<and>
   AuthController_login_kind InvalidCredentials = AUTHENTICATION_ERROR"
  using User_findOne_email_None[of d email]
  by (auto simp: authenticateUser_def)

theorem authenticateUser_failure_uniform_witness:
  "authenticateUser same_text (\<lambda>_. Some ''t'') db_pw ''nobody@example.com'' ''Abcdef1!'' = Inl InvalidCredentials \<and>
   authenticateUser same_text (\<lambda>_. Some ''t'') db_pw ''carol@example.com'' ''guess'' = Inl InvalidCredentials \<and>
   authenticateUser same_text (\<lambda>_. Some ''t'') db_pw ''carol@example.com'' ''Abcdef1!'' =
     Inr ((3, ''Carol'', ''carol@example.com''), ''t'')"
proof -
  have n: "\<not> (\<exists>u \<in> set (users db_pw). u_email u = ''nobody@example.com'')"
    by (simp add: db_pw_def alice_def carol_def)
  have f: "User_findOne_email db_pw ''carol@example.com'' = Some carol"
    by (simp add: User_findOne_email_def db_pw_def alice_def carol_def)
  have w: "\<not> same_text ''guess'' (password_hash carol)"
    by (simp add: same_text_def carol_def)
  have a: "authenticateUser same_text (\<lambda>_. Some ''t'') db_pw ''nobody@example.com'' ''Abcdef1!'' = Inl InvalidCredentials"
    using authenticateUser_failure_uniform[where d = db_pw and email = "''nobody@example.com''"] n
    by blast
  have b: "authenticateUser same_text (\<lambda>_. Some ''t'') db_pw ''carol@example.com'' ''guess'' = Inl InvalidCredentials"
    using authenticateUser_failure_uniform[where d = db_pw and email = "''carol@example.com''"
        and password = "''guess''" and compare = same_text] f w
    by blast
  have c: "authenticateUser same_text (\<lambda>_. Some ''t'') db_pw ''carol@example.com'' ''Abcdef1!'' =
     Inr ((3, ''Carol'', ''carol@example.com''), ''t'')"
    by (simp add: authenticateUser_def f same_text_def carol_def)
  show ?thesis using a b c by blast
qed

lemma changePassword_failure_keeps_store:
  "changePassword compare upd d i cur new = (Inl e, d') \<Longrightarrow> d' = d"
  by (auto simp: changePassword_def Let_def split: option.splits if_splits)

lemma changePassword_same_fails:
  "\<exists>e. changePassword compare upd d i pw pw = (Inl e, d)"
  by (auto simp: changePassword_def Let_def split: option.splits)

text \<open>
  C10: \<open>changePassword\<close> with a new password equal to the current one fails for
  every user id and store; when the current password is correct and the new one passes the
  strength validation, the failure is 'A nova senha deve ser diferente da senha atual'.
  Every failure of \<open>changePassword\<close> leaves the store, and so the stored hash, as it
  was.
\<close>

theorem changePassword_same_password:
  "(\<exists>e. changePassword compare upd d i pw pw = (Inl e, d)) \<and>
   (\<forall>byId user. User_findByPk d i = Some byId \<and> User_findOne_email d (u_email byId) = Some user \<and>
        compare pw (password_hash user) \<and> isValid (validatePasswordStrength pw) \<longrightarrow>
      changePassword compare upd d i pw pw = (Inl SamePassword, d)) \<and>
   (\<forall>e d'. changePassword compare upd d i cur new = (Inl e, d') \<longrightarrow> d' = d)"
proof (intro conjI allI impI)
  show "\<exists>e. changePassword compare upd d i pw pw = (Inl e, d)"
    by (rule changePassword_same_fails)
next
  fix byId user
  assume "User_findByPk d i = Some byId \<and> User_findOne_email d (u_email byId) = Some user \<and>
        compare pw (password_hash user) \<and> isValid (validatePasswordStrength pw)"
  then show "changePassword compare upd d i pw pw = (Inl SamePassword, d)"
    by (simp add: changePassword_def Let_def)
next
  fix e d'
  assume "changePassword compare upd d i cur new = (Inl e, d')"
  then show "d' = d" by (rule changePassword_failure_keeps_store)
qed

lemmas pw_eval = validatePasswordStrength_def has_char_in_def toLowerCase_def commonPasswords_def
  specialChars_def credit_def Let_def

theorem changePassword_same_password_witness:
  "changePassword same_text overwrite_hash db_pw 3 ''Abcdef1!'' ''Abcdef1!'' = (Inl SamePassword, db_pw) \<and>
   changePassword same_text overwrite_hash db_pw 3 ''guess'' ''Xyz12345?'' = (Inl WrongCurrentPassword, db_pw) \<and>
   fst (changePassword same_text overwrite_hash db_pw 3 ''Abcdef1!'' ''Xyz12345?'') = Inr True"
proof -
  have i: "User_findByPk db_pw 3 = Some carol"
    by (simp add: User_findByPk_def db_pw_def alice_def carol_def)
  have f: "User_findOne_email db_pw (u_email carol) = Some carol"
    by (simp add: User_findOne_email_def db_pw_def alice_def carol_def)
  have f2: "User_findOne_email db_pw ''carol@example.com'' = Some carol"
    by (simp add: User_findOne_email_def db_pw_def alice_def carol_def)
  have c: "same_text ''Abcdef1!'' (password_hash carol)"
    by (simp add: same_text_def carol_def)
  have v: "isValid (validatePasswordStrength ''Abcdef1!'')"
    by (simp add: pw_eval)
  have a: "changePassword same_text overwrite_hash db_pw 3 ''Abcdef1!'' ''Abcdef1!'' = (Inl SamePassword, db_pw)"
    using changePassword_same_password[where d = db_pw and i = 3 and pw = "''Abcdef1!''"
        and compare = same_text and upd = overwrite_hash] i f c v
    by blast
  have w: "changePassword same_text overwrite_hash db_pw 3 ''guess'' ''Xyz12345?'' = (Inl WrongCurrentPassword, db_pw)"
    by (simp add: changePassword_def i f2 same_text_def carol_def)
  have s: "fst (changePassword same_text overwrite_hash db_pw 3 ''Abcdef1!'' ''Xyz12345?'') = Inr True"
    by (simp add: changePassword_def i f2 same_text_def carol_def pw_eval)
  show ?thesis using a w s by blast
qed

section \<open>Ownership of posts and likes\<close>

lemma Post_findByPk_unique:
  "distinct (map p_id (posts d)) \<Longrightarrow> p \<in> set (posts d) \<Longrightarrow> p_id p = i \<Longrightarrow> available_at p \<le> now \<Longrightarrow>
     Post_findByPk d now i = Some p"
  unfolding Post_findByPk_def
  by (rule find_unique_key[where k = p_id and i = i]) (auto simp: post_matches_id)

lemma Post_findByPk_absent:
  "\<not> (\<exists>p \<in> set (posts d). p_id p = i) \<Longrightarrow> Post_findByPk d now i = None"
  by (auto simp: Post_findByPk_None)

lemma same_key_same_post:
  assumes "distinct (map p_id (posts d))" "p \<in> set (posts d)" "q \<in> set (posts d)" "p_id q = p_id p"
  shows "q = p"
proof -
  have "inj_on p_id (set (posts d))" using assms(1) by (simp add: distinct_map)
  then show ?thesis using assms(2,3,4) by (auto dest: inj_onD)
qed

lemma Post_update_id:
  assumes "distinct (map p_id (posts d))" "p \<in> set (posts d)" "p_id p = i" "available_at p \<le> now"
    "Post_validate v"
  shows "Post_update d now v (where_id i) =
           Inr (d\<lparr>posts := map (\<lambda>q. if p_id q = i then apply_update v q else q) (posts d)\<rparr>)"
proof -
  have m: "map (\<lambda>q. if p_id q = i \<and> available_at q \<le> now then apply_update v q else q) (posts d) =
           map (\<lambda>q. if p_id q = i then apply_update v q else q) (posts d)"
  proof (rule map_cong[OF refl])
    fix q assume q: "q \<in> set (posts d)"
    show "(if p_id q = i \<and> available_at q \<le> now then apply_update v q else q) =
          (if p_id q = i then apply_update v q else q)"
    proof (cases "p_id q = i")
      case True
      then have "q = p" using same_key_same_post[OF assms(1,2) q] assms(3) by simp
      then show ?thesis using True assms(4) by simp
    next
      case False
      then show ?thesis by simp
    qed
  qed
  show ?thesis using assms(5) by (simp add: Post_update_def post_matches_id m)
qed

lemma p_id_apply_update: "p_id (apply_update v q) = p_id q"
  by (simp add: apply_update_def)

lemma updated_keys:
  "map p_id (map (\<lambda>q. if p_id q = i then apply_update v q else q) ps) = map p_id ps"
  by (induction ps) (simp_all add: p_id_apply_update)

lemma Post_findByPk_updated:
  assumes "distinct (map p_id (posts d))" "p \<in> set (posts d)" "p_id p = i"
  shows "Post_findByPk (d\<lparr>posts := map (\<lambda>q. if p_id q = i then apply_update v q else q) (posts d)\<rparr>) now i =
           (if available_at (apply_update v p) \<le> now then Some (apply_update v p) else None)"
proof (cases "available_at (apply_update v p) \<le> now")
  case True
  have "apply_update v p \<in> set (map (\<lambda>q. if p_id q = i then apply_update v q else q) (posts d))"
    using assms(2,3) by (auto simp: image_iff intro!: bexI[of _ p])
  then have "Post_findByPk (d\<lparr>posts := map (\<lambda>q. if p_id q = i then apply_update v q else q) (posts d)\<rparr>)
      now i = Some (apply_update v p)"
    using assms(1,3) True
    by (intro Post_findByPk_unique) (simp_all add: updated_keys p_id_apply_update del: map_map)
  then show ?thesis using True by simp
next
  case False
  have "\<not> (\<exists>q' \<in> set (map (\<lambda>q. if p_id q = i then apply_update v q else q) (posts d)).
          p_id q' = i \<and> available_at q' \<le> now)"
  proof
    assume "\<exists>q' \<in> set (map (\<lambda>q. if p_id q = i then apply_update v q else q) (posts d)).
          p_id q' = i \<and> available_at q' \<le> now"
    then obtain q where q: "q \<in> set (posts d)"
      and k: "p_id (if p_id q = i then apply_update v q else q) = i"
      and a: "available_at (if p_id q = i then apply_update v q else q) \<le> now"
      by auto
    have "p_id q = i" using k by (simp add: p_id_apply_update split: if_splits)
    then have "q = p" using same_key_same_post[OF assms(1,2) q] assms(3) by simp
    then show False using a False assms(3) by simp
  qed
  then show ?thesis using False by (simp add: Post_findByPk_None)
qed

lemma include_User_updated:
  "include_User (d\<lparr>posts := ps\<rparr>) (apply_update v p) = include_User d p"
  by (simp add: include_User_def User_findByPk_def apply_update_def)

lemma updatePost_owner:
  assumes "distinct (map p_id (posts d))" "p \<in> set (posts d)" "p_id p = i" "available_at p \<le> now"
    "p_user_id p = caller" "Post_validate v"
  shows "updatePost d now i v caller =
     (Inr (if available_at (apply_update v p) \<le> now
           then Some (apply_update v p, include_User d p) else None),
      d\<lparr>posts := map (\<lambda>q. if p_id q = i then apply_update v q else q) (posts d)\<rparr>)"
  using Post_findByPk_unique[OF assms(1,2,3,4)] assms(5)
  by (simp add: updatePost_def Post_update_id[OF assms(1,2,3,4,6)]
      Post_findByPk_updated[OF assms(1,2,3)] include_User_updated Let_def)

lemma updatePost_owner_invalid:
  assumes "distinct (map p_id (posts d))" "p \<in> set (posts d)" "p_id p = i" "available_at p \<le> now"
    "p_user_id p = caller" "\<not> Post_validate v"
  shows "updatePost d now i v caller = (Inl SequelizeValidationError, d)"
  using Post_findByPk_unique[OF assms(1,2,3,4)] assms(5,6)
  by (simp add: updatePost_def Post_update_def)

lemma schedule_values_valid:
  "Post_validate \<lparr>upd_title = None, upd_summary = None, upd_content = None,
                  upd_available_at = Some at\<rparr>"
  by (simp add: Post_validate_def validate_field_def)

lemma apply_schedule:
  "apply_update \<lparr>upd_title = None, upd_summary = None, upd_content = None,
                 upd_available_at = Some at\<rparr> q = q\<lparr>available_at := at\<rparr>"
  by (cases q) (simp add: apply_update_def set_field_def)

lemma schedulePost_owner:
  assumes "distinct (map p_id (posts d))" "p \<in> set (posts d)" "p_id p = i" "available_at p \<le> now"
    "p_user_id p = caller"
  shows "schedulePost d now i at caller =
     (if at \<le> now then (Inl DateNotInFuture, d)
      else (Inr None,
            d\<lparr>posts := map (\<lambda>q. if p_id q = i then q\<lparr>available_at := at\<rparr> else q) (posts d)\<rparr>))"
proof (cases "at \<le> now")
  case True
  then show ?thesis using Post_findByPk_unique[OF assms(1,2,3,4)] assms(5)
    by (simp add: schedulePost_def)
next
  case False
  have u: "Post_update d now \<lparr>upd_title = None, upd_summary = None, upd_content = None,
                  upd_available_at = Some at\<rparr> (where_id i) =
        Inr (d\<lparr>posts := map (\<lambda>q. if p_id q = i then q\<lparr>available_at := at\<rparr> else q) (posts d)\<rparr>)"
    using Post_update_id[OF assms(1,2,3,4) schedule_values_valid[of at]]
    by (simp add: apply_schedule cong: if_cong)
  have f: "Post_findByPk (d\<lparr>posts := map (\<lambda>q. if p_id q = i then q\<lparr>available_at := at\<rparr> else q) (posts d)\<rparr>)
      now i = None"
    using Post_findByPk_updated[OF assms(1,2,3), of "\<lparr>upd_title = None, upd_summary = None,
        upd_content = None, upd_available_at = Some at\<rparr>" now] False
    by (simp add: apply_schedule cong: if_cong)
  show ?thesis using False Post_findByPk_unique[OF assms(1,2,3,4)] assms(5)
    by (simp add: schedulePost_def u f Let_def)
qed

lemma Post_destroy_id:
  assumes "distinct (map p_id (posts d))" "p \<in> set (posts d)" "p_id p = i" "available_at p \<le> now"
  shows "Post_destroy d now (where_id i) =
           d\<lparr>posts := filter (\<lambda>q. p_id q \<noteq> i) (posts d),
             post_likes := filter (\<lambda>l. l_post_id l \<noteq> i) (post_likes d)\<rparr>"
proof -
  have e: "\<And>q. q \<in> set (posts d) \<Longrightarrow> (p_id q = i \<and> available_at q \<le> now) = (p_id q = i)"
  proof -
    fix q assume q: "q \<in> set (posts d)"
    show "(p_id q = i \<and> available_at q \<le> now) = (p_id q = i)"
    proof (cases "p_id q = i")
      case True
      then have "q = p" using same_key_same_post[OF assms(1,2) q] assms(3) by simp
      then show ?thesis using True assms(4) by simp
    next
      case False
      then show ?thesis by simp
    qed
  qed
  have k: "filter (\<lambda>q. \<not> (p_id q = i \<and> available_at q \<le> now)) (posts d) =
           filter (\<lambda>q. p_id q \<noteq> i) (posts d)"
    by (rule filter_cong[OF refl]) (simp add: e)
  have "set (map p_id (filter (\<lambda>q. p_id q = i \<and> available_at q \<le> now) (posts d))) = {i}"
    using assms(2,3,4) by auto
  then have g: "filter (\<lambda>l. l_post_id l \<notin> set (map p_id
                   (filter (\<lambda>q. p_id q = i \<and> available_at q \<le> now) (posts d)))) (post_likes d) =
                filter (\<lambda>l. l_post_id l \<noteq> i) (post_likes d)"
    by simp
  have pm: "post_matches (Post_injectScope now (where_id i)) = (\<lambda>q. p_id q = i \<and> available_at q \<le> now)"
    by (rule ext) (rule post_matches_id)
  show ?thesis using k g by (simp add: Post_destroy_def Let_def pm)
qed

lemma deletePost_owner:
  assumes "distinct (map p_id (posts d))" "p \<in> set (posts d)" "p_id p = i" "available_at p \<le> now"
    "p_user_id p = caller"
  shows "deletePost d now i caller =
     (Inr True, d\<lparr>posts := filter (\<lambda>q. p_id q \<noteq> i) (posts d),
                  post_likes := filter (\<lambda>l. l_post_id l \<noteq> i) (post_likes d)\<rparr>)"
  using Post_findByPk_unique[OF assms(1,2,3,4)] assms(5)
  by (simp add: deletePost_def Post_destroy_id[OF assms(1,2,3,4)])

lemma post_mutations_missing:
  assumes "\<not> (\<exists>p \<in> set (posts d). p_id p = i)"
  shows "updatePost d now i v caller = (Inl PostNotFound, d) \<and>
         deletePost d now i caller = (Inl PostNotFound, d) \<and>
         schedulePost d now i at caller = (Inl PostNotFound, d)"
  using Post_findByPk_absent[OF assms, of now]
  by (simp add: updatePost_def deletePost_def schedulePost_def)

lemma post_mutations_not_owner:
  assumes "distinct (map p_id (posts d))" "p \<in> set (posts d)" "p_id p = i" "available_at p \<le> now"
    "p_user_id p \<noteq> caller"
  shows "updatePost d now i v caller = (Inl AccessDeniedEdit, d) \<and>
         deletePost d now i caller = (Inl AccessDeniedRemove, d) \<and>
         schedulePost d now i at caller = (Inl AccessDeniedSchedule, d)"
  using Post_findByPk_unique[OF assms(1,2,3,4)] assms(5)
  by (simp add: updatePost_def deletePost_def schedulePost_def)

lemma PostLike_findOne_id_user_None:
  "(PostLike_findOne d (where_id_user i u) = None) =
     (\<not> (\<exists>l \<in> set (post_likes d). l_id l = i \<and> l_user_id l = u \<and> \<not> is_deleted l))"
  by (auto simp: PostLike_findOne_def find_None_iff like_matches_id_user)

lemma removeLike_refused:
  "\<not> (\<exists>l \<in> set (post_likes d). l_id l = likeId \<and> l_user_id l = caller \<and> \<not> is_deleted l) \<Longrightarrow>
     removeLike d likeId caller = (Inl LikeNotFoundOrNoPermission, d)"
  using PostLike_findOne_id_user_None[of d likeId caller] by (simp add: removeLike_def)

lemma removeLike_missing:
  "\<not> (\<exists>l \<in> set (post_likes d). l_id l = likeId) \<Longrightarrow>
     removeLike d likeId caller = (Inl LikeNotFoundOrNoPermission, d)"
  by (rule removeLike_refused) blast

lemma removeLike_not_owner:
  assumes "distinct (map l_id (post_likes d))" "l \<in> set (post_likes d)" "l_id l = likeId"
    "l_user_id l \<noteq> caller"
  shows "removeLike d likeId caller = (Inl LikeNotFoundOrNoPermission, d)"
proof (rule removeLike_refused, rule notI)
  assume "\<exists>m \<in> set (post_likes d). l_id m = likeId \<and> l_user_id m = caller \<and> \<not> is_deleted m"
  then obtain m where m: "m \<in> set (post_likes d)" "l_id m = likeId" "l_user_id m = caller" by blast
  have "inj_on l_id (set (post_likes d))" using assms(1) by (simp add: distinct_map)
  then have "m = l" using m(1,2) assms(2,3) by (auto dest: inj_onD)
  then show False using m(3) assms(4) by simp
qed

lemma removeLike_owner:
  assumes "distinct (map l_id (post_likes d))" "l \<in> set (post_likes d)" "l_id l = likeId"
    "l_user_id l = caller" "\<not> is_deleted l"
  shows "removeLike d likeId caller =
     (Inr True, d\<lparr>post_likes := map (\<lambda>r. if l_id r = likeId then r\<lparr>is_deleted := True\<rparr> else r)
                                    (post_likes d)\<rparr>)"
proof -
  have "PostLike_findOne d (where_id_user likeId caller) = Some l"
    unfolding PostLike_findOne_def
    by (rule find_unique_key[where k = l_id and i = likeId])
       (use assms in \<open>auto simp: like_matches_id_user\<close>)
  then show ?thesis
    using PostLike_save_deleted[OF assms(1,2)] assms(3) by (simp add: removeLike_def)
qed

text \<open>
  C4, as the code has it, in terms of what the controllers answer. In a store with
  unique post and like keys:
  \<^item> \<open>updatePost\<close>, \<open>deletePost\<close> and \<open>schedulePost\<close> on an id that no post has
    fail with the post-not-found error, answered \<open>NOT_FOUND\<close>;
  \<^item> on a post that is available at the time of the call and whose owner is not the
    caller they fail with their access-denied error, answered \<open>AUTHORIZATION_ERROR\<close>:
    the lookup comes first, the ownership test second;
  \<^item> for the owner of an available post: an update whose values pass the validators
    of the model and leave the post available is written to that post and answered with
    the updated post and its owner's \<open>{id, name}\<close>, and an update whose values fail
    a validator is rejected with \<open>SequelizeValidationError\<close>; a delete removes the
    post and its likes and is answered \<open>true\<close>; a schedule request is never answered
    \<open>NOT_FOUND\<close> or \<open>AUTHORIZATION_ERROR\<close>, and is answered \<open>VALIDATION_ERROR\<close>
    when the target time is not after now;
  \<^item> \<open>removeLike\<close> looks the like up by key and user at once: it fails with the one
    error 'Like nao encontrado ou voce nao tem permissao para remove-lo', answered
    \<open>NOT_FOUND\<close>, both when no like has the key and when the like belongs to another
    user; for the owner of an active like it marks that like deleted, changes nothing
    else, and is answered \<open>true\<close>.
  Failures leave the store as it was.
\<close>

theorem mutation_ownership:
  "distinct (map p_id (posts d)) \<Longrightarrow> distinct (map l_id (post_likes d)) \<Longrightarrow>
   (\<not> (\<exists>p \<in> set (posts d). p_id p = i) \<longrightarrow>
      updatePost d now i v caller = (Inl PostNotFound, d) \<and>
      deletePost d now i caller = (Inl PostNotFound, d) \<and>
      schedulePost d now i at caller = (Inl PostNotFound, d) \<and>
      PostController_updatePost d now i v caller = (Inl NOT_FOUND, d) \<and>
      PostController_deletePost d now i caller = (Inl NOT_FOUND, d) \<and>
      PostController_schedulePost d now i at caller = (Inl NOT_FOUND, d)) \<and>
   (\<forall>p \<in> set (posts d). p_id p = i \<and> available_at p \<le> now \<and> p_user_id p \<noteq> caller \<longrightarrow>
      updatePost d now i v caller = (Inl AccessDeniedEdit, d) \<and>
      deletePost d now i caller = (Inl AccessDeniedRemove, d) \<and>
      schedulePost d now i at caller = (Inl AccessDeniedSchedule, d) \<and>
      PostController_updatePost d now i v caller = (Inl AUTHORIZATION_ERROR, d) \<and>
      PostController_deletePost d now i caller = (Inl AUTHORIZATION_ERROR, d) \<and>
      PostController_schedulePost d now i at caller = (Inl AUTHORIZATION_ERROR, d)) \<and>
   (\<forall>p \<in> set (posts d). p_id p = i \<and> available_at p \<le> now \<and> p_user_id p = caller \<longrightarrow>
      (Post_validate v \<and> available_at (apply_update v p) \<le> now \<longrightarrow>
         PostController_updatePost d now i v caller =
           (Inr (apply_update v p, include_User d p),
            d\<lparr>posts := map (\<lambda>q. if p_id q = i then apply_update v q else q) (posts d)\<rparr>)) \<and>
      (\<not> Post_validate v \<longrightarrow> updatePost d now i v caller = (Inl SequelizeValidationError, d)) \<and>
      PostController_deletePost d now i caller =
        (Inr True, d\<lparr>posts := filter (\<lambda>q. p_id q \<noteq> i) (posts d),
                     post_likes := filter (\<lambda>l. l_post_id l \<noteq> i) (post_likes d)\<rparr>) \<and>
      (at \<le> now \<longrightarrow> PostController_schedulePost d now i at caller = (Inl VALIDATION_ERROR, d)) \<and>
      fst (PostController_schedulePost d now i at caller) \<noteq> Inl NOT_FOUND \<and>
      fst (PostController_schedulePost d now i at caller) \<noteq> Inl AUTHORIZATION_ERROR) \<and>
   (\<not> (\<exists>l \<in> set (post_likes d). l_id l = likeId) \<longrightarrow>
      removeLike d likeId caller = (Inl LikeNotFoundOrNoPermission, d) \<and>
      LikeController_removeLike d likeId caller = (Inl NOT_FOUND, d)) \<and>
   (\<forall>l \<in> set (post_likes d). l_id l = likeId \<and> l_user_id l \<noteq> caller \<longrightarrow>
      removeLike d likeId caller = (Inl LikeNotFoundOrNoPermission, d) \<and>
      LikeController_removeLike d likeId caller = (Inl NOT_FOUND, d)) \<and>
   (\<forall>l \<in> set (post_likes d). l_id l = likeId \<and> l_user_id l = caller \<and> \<not> is_deleted l \<longrightarrow>
      LikeController_removeLike d likeId caller =
        (Inr True, d\<lparr>post_likes := map (\<lambda>r. if l_id r = likeId then r\<lparr>is_deleted := True\<rparr> else r)
                                       (post_likes d)\<rparr>))"
proof -
  assume dp: "distinct (map p_id (posts d))" and dl: "distinct (map l_id (post_likes d))"
  have a: "\<not> (\<exists>p \<in> set (posts d). p_id p = i) \<longrightarrow>
      updatePost d now i v caller = (Inl PostNotFound, d) \<and>
      deletePost d now i caller = (Inl PostNotFound, d) \<and>
      schedulePost d now i at caller = (Inl PostNotFound, d) \<and>
      PostController_updatePost d now i v caller = (Inl NOT_FOUND, d) \<and>
      PostController_deletePost d now i caller = (Inl NOT_FOUND, d) \<and>
      PostController_schedulePost d now i at caller = (Inl NOT_FOUND, d)"
    using post_mutations_missing[of d i now v caller at]
    by (simp add: PostController_updatePost_def PostController_deletePost_def
        PostController_schedulePost_def)
  have b: "\<forall>p \<in> set (posts d). p_id p = i \<and> available_at p \<le> now \<and> p_user_id p \<noteq> caller \<longrightarrow>
      updatePost d now i v caller = (Inl AccessDeniedEdit, d) \<and>
      deletePost d now i caller = (Inl AccessDeniedRemove, d) \<and>
      schedulePost d now i at caller = (Inl AccessDeniedSchedule, d) \<and>
      PostController_updatePost d now i v caller = (Inl AUTHORIZATION_ERROR, d) \<and>
      PostController_deletePost d now i caller = (Inl AUTHORIZATION_ERROR, d) \<and>
      PostController_schedulePost d now i at caller = (Inl AUTHORIZATION_ERROR, d)"
  proof (intro ballI impI)
    fix p assume "p \<in> set (posts d)"
      and "p_id p = i \<and> available_at p \<le> now \<and> p_user_id p \<noteq> caller"
    then show "updatePost d now i v caller = (Inl AccessDeniedEdit, d) \<and>
      deletePost d now i caller = (Inl AccessDeniedRemove, d) \<and>
      schedulePost d now i at caller = (Inl AccessDeniedSchedule, d) \<and>
      PostController_updatePost d now i v caller = (Inl AUTHORIZATION_ERROR, d) \<and>
      PostController_deletePost d now i caller = (Inl AUTHORIZATION_ERROR, d) \<and>
      PostController_schedulePost d now i at caller = (Inl AUTHORIZATION_ERROR, d)"
      using post_mutations_not_owner[OF dp, of p i now caller v at]
      by (simp add: PostController_updatePost_def PostController_deletePost_def
          PostController_schedulePost_def)
  qed
  have c: "\<forall>p \<in> set (posts d). p_id p = i \<and> available_at p \<le> now \<and> p_user_id p = caller \<longrightarrow>
      (Post_validate v \<and> available_at (apply_update v p) \<le> now \<longrightarrow>
         PostController_updatePost d now i v caller =
           (Inr (apply_update v p, include_User d p),
            d\<lparr>posts := map (\<lambda>q. if p_id q = i then apply_update v q else q) (posts d)\<rparr>)) \<and>
      (\<not> Post_validate v \<longrightarrow> updatePost d now i v caller = (Inl SequelizeValidationError, d)) \<and>
      PostController_deletePost d now i caller =
        (Inr True, d\<lparr>posts := filter (\<lambda>q. p_id q \<noteq> i) (posts d),
                     post_likes := filter (\<lambda>l. l_post_id l \<noteq> i) (post_likes d)\<rparr>) \<and>
      (at \<le> now \<longrightarrow> PostController_schedulePost d now i at caller = (Inl VALIDATION_ERROR, d)) \<and>
      fst (PostController_schedulePost d now i at caller) \<noteq> Inl NOT_FOUND \<and>
      fst (PostController_schedulePost d now i at caller) \<noteq> Inl AUTHORIZATION_ERROR"
  proof (intro ballI impI)
    fix p assume p: "p \<in> set (posts d)"
      and h: "p_id p = i \<and> available_at p \<le> now \<and> p_user_id p = caller"
    have u: "Post_validate v \<and> available_at (apply_update v p) \<le> now \<longrightarrow>
         PostController_updatePost d now i v caller =
           (Inr (apply_update v p, include_User d p),
            d\<lparr>posts := map (\<lambda>q. if p_id q = i then apply_update v q else q) (posts d)\<rparr>)"
      using updatePost_owner[OF dp p, of i now caller v] h
      by (simp add: PostController_updatePost_def)
    have w: "\<not> Post_validate v \<longrightarrow> updatePost d now i v caller = (Inl SequelizeValidationError, d)"
      using updatePost_owner_invalid[OF dp p, of i now caller v] h by simp
    have e: "PostController_deletePost d now i caller =
        (Inr True, d\<lparr>posts := filter (\<lambda>q. p_id q \<noteq> i) (posts d),
                     post_likes := filter (\<lambda>l. l_post_id l \<noteq> i) (post_likes d)\<rparr>)"
      using deletePost_owner[OF dp p, of i now caller] h
      by (simp add: PostController_deletePost_def)
    have s: "(at \<le> now \<longrightarrow> PostController_schedulePost d now i at caller = (Inl VALIDATION_ERROR, d)) \<and>
      fst (PostController_schedulePost d now i at caller) \<noteq> Inl NOT_FOUND \<and>
      fst (PostController_schedulePost d now i at caller) \<noteq> Inl AUTHORIZATION_ERROR"
      using schedulePost_owner[OF dp p, of i now caller at] h
      by (simp add: PostController_schedulePost_def)
    show "(Post_validate v \<and> available_at (apply_update v p) \<le> now \<longrightarrow>
         PostController_updatePost d now i v caller =
           (Inr (apply_update v p, include_User d p),
            d\<lparr>posts := map (\<lambda>q. if p_id q = i then apply_update v q else q) (posts d)\<rparr>)) \<and>
      (\<not> Post_validate v \<longrightarrow> updatePost d now i v caller = (Inl SequelizeValidationError, d)) \<and>
      PostController_deletePost d now i caller =
        (Inr True, d\<lparr>posts := filter (\<lambda>q. p_id q \<noteq> i) (posts d),
                     post_likes := filter (\<lambda>l. l_post_id l \<noteq> i) (post_likes d)\<rparr>) \<and>
      (at \<le> now \<longrightarrow> PostController_schedulePost d now i at caller = (Inl VALIDATION_ERROR, d)) \<and>
      fst (PostController_schedulePost d now i at caller) \<noteq> Inl NOT_FOUND \<and>
      fst (PostController_schedulePost d now i at caller) \<noteq> Inl AUTHORIZATION_ERROR"
      using u w e s by blast
  qed
  have e: "\<not> (\<exists>l \<in> set (post_likes d). l_id l = likeId) \<longrightarrow>
      removeLike d likeId caller = (Inl LikeNotFoundOrNoPermission, d) \<and>
      LikeController_removeLike d likeId caller = (Inl NOT_FOUND, d)"
    using removeLike_missing[of d likeId caller] by (simp add: LikeController_removeLike_def)
  have f: "\<forall>l \<in> set (post_likes d). l_id l = likeId \<and> l_user_id l \<noteq> caller \<longrightarrow>
      removeLike d likeId caller = (Inl LikeNotFoundOrNoPermission, d) \<and>
      LikeController_removeLike d likeId caller = (Inl NOT_FOUND, d)"
  proof (intro ballI impI)
    fix l assume "l \<in> set (post_likes d)" and "l_id l = likeId \<and> l_user_id l \<noteq> caller"
    then show "removeLike d likeId caller = (Inl LikeNotFoundOrNoPermission, d) \<and>
      LikeController_removeLike d likeId caller = (Inl NOT_FOUND, d)"
      using removeLike_not_owner[OF dl, of l likeId caller]
      by (simp add: LikeController_removeLike_def)
  qed
  have g: "\<forall>l \<in> set (post_likes d). l_id l = likeId \<and> l_user_id l = caller \<and> \<not> is_deleted l \<longrightarrow>
      LikeController_removeLike d likeId caller =
        (Inr True, d\<lparr>post_likes := map (\<lambda>r. if l_id r = likeId then r\<lparr>is_deleted := True\<rparr> else r)
                                       (post_likes d)\<rparr>)"
  proof (intro ballI impI)
    fix l assume "l \<in> set (post_likes d)"
      and "l_id l = likeId \<and> l_user_id l = caller \<and> \<not> is_deleted l"
    then show "LikeController_removeLike d likeId caller =
        (Inr True, d\<lparr>post_likes := map (\<lambda>r. if l_id r = likeId then r\<lparr>is_deleted := True\<rparr> else r)
                                       (post_likes d)\<rparr>)"
      using removeLike_owner[OF dl, of l likeId caller]
      by (simp add: LikeController_removeLike_def)
  qed
  show ?thesis using a b c e f g by blast
qed

theorem mutation_ownership_witness:
  "PostController_updatePost db_liked 100 7 retitle 1 = (Inl NOT_FOUND, db_liked) \<and>
   PostController_deletePost db_liked 100 7 1 = (Inl NOT_FOUND, db_liked) \<and>
   PostController_schedulePost db_liked 100 7 500 1 = (Inl NOT_FOUND, db_liked) \<and>
   PostController_updatePost db_liked 100 1 retitle 2 = (Inl AUTHORIZATION_ERROR, db_liked) \<and>
   PostController_deletePost db_liked 100 1 2 = (Inl AUTHORIZATION_ERROR, db_liked) \<and>
   PostController_schedulePost db_liked 100 1 500 2 = (Inl AUTHORIZATION_ERROR, db_liked) \<and>
   PostController_updatePost db_liked 100 1 retitle 1 =
     (Inr (post_x\<lparr>title := ''T''\<rparr>, Some (1, ''Alice'')),
      db_liked\<lparr>posts := [post_x\<lparr>title := ''T''\<rparr>, post_later]\<rparr>) \<and>
   updatePost db_liked 100 1 blank_title 1 = (Inl SequelizeValidationError, db_liked) \<and>
   PostController_deletePost db_liked 100 1 1 =
     (Inr True, db_liked\<lparr>posts := [post_later], post_likes := []\<rparr>) \<and>
   PostController_schedulePost db_liked 100 1 40 1 = (Inl VALIDATION_ERROR, db_liked) \<and>
   LikeController_removeLike db_liked 9 2 = (Inl NOT_FOUND, db_liked) \<and>
   LikeController_removeLike db_liked 1 1 = (Inl NOT_FOUND, db_liked) \<and>
   LikeController_removeLike db_liked 1 2 =
     (Inr True, db_liked\<lparr>post_likes := [like_bob_x\<lparr>is_deleted := True\<rparr>]\<rparr>)"
proof -
  have dp: "distinct (map p_id (posts db_liked))" by (simp add: liked_defs)
  have dl: "distinct (map l_id (post_likes db_liked))" by (simp add: liked_defs)
  have p7: "\<not> (\<exists>p \<in> set (posts db_liked). p_id p = 7)" by (simp add: liked_defs)
  have px: "post_x \<in> set (posts db_liked)" by (simp add: liked_defs)
  have x: "p_id post_x = 1" "available_at post_x \<le> 100" "p_user_id post_x = 1" "p_user_id post_x \<noteq> 2"
    by (simp_all add: liked_defs)
  have r: "Post_validate retitle" "available_at (apply_update retitle post_x) \<le> 100"
    by (simp_all add: retitle_def Post_validate_def validate_field_def notEmpty_def len_def
        whitespace_def apply_update_def set_field_def post_x_def)
  have l9: "\<not> (\<exists>l \<in> set (post_likes db_liked). l_id l = 9)" by (simp add: liked_defs)
  have lb: "like_bob_x \<in> set (post_likes db_liked)" by (simp add: liked_defs)
  have b: "l_id like_bob_x = 1" "l_user_id like_bob_x = 2" "l_user_id like_bob_x \<noteq> 1"
    "\<not> is_deleted like_bob_x"
    by (simp_all add: liked_defs)
  have t: "(40::int) \<le> 100" by simp
  have nv: "\<not> Post_validate blank_title"
    by (simp add: blank_title_def Post_validate_def validate_field_def notEmpty_def)
  note m = mutation_ownership[OF dp dl]
  have a0: "updatePost db_liked 100 1 blank_title 1 = (Inl SequelizeValidationError, db_liked)"
    using m[where i = 1 and now = 100 and v = blank_title and caller = 1] px x nv by blast
  have a1: "PostController_updatePost db_liked 100 7 retitle 1 = (Inl NOT_FOUND, db_liked) \<and>
      PostController_deletePost db_liked 100 7 1 = (Inl NOT_FOUND, db_liked) \<and>
      PostController_schedulePost db_liked 100 7 500 1 = (Inl NOT_FOUND, db_liked)"
    using m[where i = 7 and now = 100 and v = retitle and caller = 1 and at = 500] p7 by blast
  have a2: "PostController_updatePost db_liked 100 1 retitle 2 = (Inl AUTHORIZATION_ERROR, db_liked) \<and>
      PostController_deletePost db_liked 100 1 2 = (Inl AUTHORIZATION_ERROR, db_liked) \<and>
      PostController_schedulePost db_liked 100 1 500 2 = (Inl AUTHORIZATION_ERROR, db_liked)"
    using m[where i = 1 and now = 100 and v = retitle and caller = 2 and at = 500] px x by blast
  have "PostController_updatePost db_liked 100 1 retitle 1 =
           (Inr (apply_update retitle post_x, include_User db_liked post_x),
            db_liked\<lparr>posts := map (\<lambda>q. if p_id q = 1 then apply_update retitle q else q)
                                  (posts db_liked)\<rparr>) \<and>
      PostController_deletePost db_liked 100 1 1 =
        (Inr True, db_liked\<lparr>posts := filter (\<lambda>q. p_id q \<noteq> 1) (posts db_liked),
                     post_likes := filter (\<lambda>l. l_post_id l \<noteq> 1) (post_likes db_liked)\<rparr>) \<and>
      PostController_schedulePost db_liked 100 1 40 1 = (Inl VALIDATION_ERROR, db_liked)"
    using m[where i = 1 and now = 100 and v = retitle and caller = 1 and at = 40] px x r t by blast
  then have a3: "PostController_updatePost db_liked 100 1 retitle 1 =
     (Inr (post_x\<lparr>title := ''T''\<rparr>, Some (1, ''Alice'')),
      db_liked\<lparr>posts := [post_x\<lparr>title := ''T''\<rparr>, post_later]\<rparr>) \<and>
   PostController_deletePost db_liked 100 1 1 =
     (Inr True, db_liked\<lparr>posts := [post_later], post_likes := []\<rparr>) \<and>
   PostController_schedulePost db_liked 100 1 40 1 = (Inl VALIDATION_ERROR, db_liked)"
    by (simp add: liked_defs retitle_def apply_update_def set_field_def include_User_def
        User_findByPk_def)
  have a4: "LikeController_removeLike db_liked 9 2 = (Inl NOT_FOUND, db_liked)"
    using m[where likeId = 9 and caller = 2] l9 by blast
  have a5: "LikeController_removeLike db_liked 1 1 = (Inl NOT_FOUND, db_liked)"
    using m[where likeId = 1 and caller = 1] lb b by blast
  have "LikeController_removeLike db_liked 1 2 =
        (Inr True, db_liked\<lparr>post_likes := map (\<lambda>r. if l_id r = 1 then r\<lparr>is_deleted := True\<rparr> else r)
                                       (post_likes db_liked)\<rparr>)"
    using m[where likeId = 1 and caller = 2] lb b by blast
  then have a6: "LikeController_removeLike db_liked 1 2 =
     (Inr True, db_liked\<lparr>post_likes := [like_bob_x\<lparr>is_deleted := True\<rparr>]\<rparr>)"
    by (simp add: db_liked_def like_bob_x_def)
  show ?thesis using a0 a1 a2 a3 a4 a5 a6 by blast
qed

text \<open>
  The claim as stated fails for like removal: like 1 exists, is active and belongs to
  user 2; user 1 removing it gets the combined error, answered \<open>NOT_FOUND\<close>, not an
  authorization error.
\<close>

theorem removeLike_not_owner_counterexample:
  "post_likes db_liked = [like_bob_x] \<and> l_id like_bob_x = 1 \<and> l_user_id like_bob_x = 2 \<and>
   \<not> is_deleted like_bob_x \<and>
   removeLike db_liked 1 1 = (Inl LikeNotFoundOrNoPermission, db_liked) \<and>
   LikeController_removeLike db_liked 1 1 = (Inl NOT_FOUND, db_liked) \<and>
   NOT_FOUND \<noteq> AUTHORIZATION_ERROR"
  by (simp add: liked_defs LikeController_removeLike_def removeLike_def PostLike_findOne_def
      like_matches_id_user)

section \<open>Scheduling\<close>

lemmas post_eval =
  PostController_schedulePost_def PUT_posts_schedule_def schedulePostSchema_def plus_365_days_def
  schedulePost_def Post_findByPk_def Post_update_def Post_validate_def validate_field_def
  apply_update_def set_field_def post_matches_id Let_def

text \<open>
  C6, evaluated on the route \<open>PUT /posts/:id/schedule\<close>, the module loaded at time 90
  and the request made at time 100 by user 1, who owns post 1 (available at 50). A target
  time not after now (100) and one more than a year ahead are answered
  \<open>VALIDATION_ERROR\<close> and nothing is written, as the claim says. A target time in
  between (500) passes the schema and the checks of the service, and \<open>available_at\<close> of
  the post is set to it; but the service then reads the post back under the default
  scope, which no longer shows it, and returns \<open>null\<close>, and the controller, calling
  \<open>.toJSON()\<close> on it, answers \<open>INTERNAL_ERROR\<close> instead of the scheduled post.
\<close>

theorem schedule_request_answers_500:
  "posts db0 = [post_x, post_later] \<and> p_id post_x = 1 \<and> p_user_id post_x = 1 \<and>
   available_at post_x = 50 \<and>
   PUT_posts_schedule 90 plus_365_days db0 100 1 100 1 = (Inl VALIDATION_ERROR, db0) \<and>
   PUT_posts_schedule 90 plus_365_days db0 100 1 100000000000 1 = (Inl VALIDATION_ERROR, db0) \<and>
   schedulePostSchema 90 plus_365_days 100 500 \<and>
   schedulePost db0 100 1 500 1 =
     (Inr None, db0\<lparr>posts := [post_x\<lparr>available_at := 500\<rparr>, post_later]\<rparr>) \<and>
   PUT_posts_schedule 90 plus_365_days db0 100 1 500 1 =
     (Inl INTERNAL_ERROR, db0\<lparr>posts := [post_x\<lparr>available_at := 500\<rparr>, post_later]\<rparr>)"
  by (simp add: store_defs post_eval)

section \<open>Listings\<close>

lemma include_PostLikes_length:
  "length (include_PostLikes d p) =
     length (filter (\<lambda>l. l_post_id l = p_id p \<and> \<not> is_deleted l) (post_likes d))"
proof -
  have "like_matches (PostLike_injectScope (where_post_active (p_id p))) =
          (\<lambda>l. l_post_id l = p_id p \<and> \<not> is_deleted l)"
    by (rule ext) (rule like_matches_post_active)
  then show ?thesis by (simp add: include_PostLikes_def)
qed

lemma include_User_owner:
  assumes "distinct (map u_id (users d))" "u \<in> set (users d)" "u_id u = p_user_id p"
  shows "include_User d p = Some (u_id u, u_name u)"
proof -
  have "find (\<lambda>x. u_id x = p_user_id p) (users d) = Some u"
    by (rule find_unique_key[where k = u_id and i = "p_user_id p"]) (use assms in auto)
  then show ?thesis by (simp add: include_User_def User_findByPk_def)
qed

lemma joined_rows_keys:
  "set (map (\<lambda>r. p_id (fst r)) (joined_rows d ps)) = set (map p_id ps)"
proof (induction ps)
  case Nil
  then show ?case by (simp add: joined_rows_def)
next
  case (Cons p ps)
  have "set (map (\<lambda>r. p_id (fst r))
          (case include_PostLikes d p of [] \<Rightarrow> [(p, None)]
           | l # ls \<Rightarrow> map (\<lambda>x. (p, Some x)) (l # ls))) = {p_id p}"
    by (cases "include_PostLikes d p") auto
  then show ?case using Cons by (simp add: joined_rows_def)
qed

lemma count_distinct_posts:
  assumes "distinct (map p_id ps)"
  shows "length (remdups (map (\<lambda>r. p_id (fst r)) (joined_rows d ps))) = length ps"
proof -
  have "length (remdups (map (\<lambda>r. p_id (fst r)) (joined_rows d ps))) =
        card (set (map (\<lambda>r. p_id (fst r)) (joined_rows d ps)))"
    by (simp add: length_remdups_card_conv)
  also have "\<dots> = card (set (map p_id ps))" by (simp only: joined_rows_keys)
  also have "\<dots> = length (map p_id ps)" using assms by (rule distinct_card)
  finally show ?thesis by simp
qed

lemma Post_findAndCountAll_count:
  assumes "distinct (map p_id (posts d))"
  shows "fst (Post_findAndCountAll ilike scan d now w srch wu lim off) =
           length (filter (\<lambda>p. post_matches (Post_injectScope now w) p \<and> search_matches ilike srch p)
                          (posts d))"
  using assms by (simp add: Post_findAndCountAll_def Let_def count_distinct_posts distinct_map_filter)

lemma Post_findAndCountAll_rows:
  "map pd_post (snd (Post_findAndCountAll ilike scan d now w srch wu lim off)) =
     take lim (drop off (sort_key (\<lambda>p. - available_at p)
       (scan (filter (\<lambda>p. post_matches (Post_injectScope now w) p \<and> search_matches ilike srch p)
          (posts d)))))"
  by (simp add: Post_findAndCountAll_def Let_def load_includes_def comp_def)

lemma sorted_desc_page:
  "sorted_wrt (\<lambda>a b. available_at b \<le> available_at a)
     (take lim (drop off (sort_key (\<lambda>p. - available_at p) ps)))"
proof -
  have "sorted (map (\<lambda>p. - available_at p) (sort_key (\<lambda>p. - available_at p) ps))"
    by (rule sorted_sort_key)
  then have "sorted_wrt (\<lambda>a b. available_at b \<le> available_at a) (sort_key (\<lambda>p. - available_at p) ps)"
    by (simp add: sorted_wrt_map)
  then show ?thesis by (intro sorted_wrt_take sorted_wrt_drop)
qed

lemma listPosts_total:
  assumes "distinct (map p_id (posts d))"
  shows "total (listPosts ilike scan d now f pg) =
           length (filter (\<lambda>p. post_matches (Post_injectScope now (listPosts_where now f)) p \<and>
                                search_matches ilike (truthy_str (search f)) p) (posts d))"
  using Post_findAndCountAll_count[OF assms, of ilike scan now "listPosts_where now f"
      "truthy_str (search f)" True "limit pg" "offset pg"]
  by (simp add: listPosts_def Let_def case_prod_beta)

lemma listPosts_posts:
  "map pd_post (lr_posts (listPosts ilike scan d now f pg)) =
     take (limit pg) (drop (offset pg) (sort_key (\<lambda>p. - available_at p)
       (scan (filter (\<lambda>p. post_matches (Post_injectScope now (listPosts_where now f)) p \<and>
                     search_matches ilike (truthy_str (search f)) p) (posts d)))))"
  using Post_findAndCountAll_rows[of ilike scan d now "listPosts_where now f"
      "truthy_str (search f)" True "limit pg" "offset pg"]
  by (simp add: listPosts_def Let_def case_prod_beta comp_def)

lemma listPosts_sorted:
  "sorted_wrt (\<lambda>a b. available_at (pd_post b) \<le> available_at (pd_post a))
     (lr_posts (listPosts ilike scan d now f pg))"
proof -
  have "sorted_wrt (\<lambda>a b. available_at b \<le> available_at a)
          (map pd_post (lr_posts (listPosts ilike scan d now f pg)))"
    by (simp only: listPosts_posts sorted_desc_page)
  then show ?thesis by (simp add: sorted_wrt_map)
qed

lemma listPosts_item:
  assumes "v \<in> set (lr_posts (listPosts ilike scan d now f pg))"
  shows "pd_User v = include_User d (pd_post v) \<and>
         pv_total_likes v = length (include_PostLikes d (pd_post v))"
  using assms
  by (auto simp: listPosts_def Post_findAndCountAll_def Let_def load_includes_def split: prod.splits)

lemma getUserPosts_item:
  assumes "v \<in> set (up_posts (getUserPosts ilike scan d now userId f pg))"
  shows "pd_User v = None \<and> pv_total_likes v = length (include_PostLikes d (pd_post v))"
  using assms
  by (auto simp: getUserPosts_def Post_findAndCountAll_def Let_def load_includes_def split: prod.splits)

lemma getPostById_item:
  assumes "getPostById d now i = Inr v"
  shows "p_id (pd_post v) = i \<and> pd_User v = include_User d (pd_post v) \<and>
         pv_total_likes v = length (include_PostLikes d (pd_post v))"
  using assms Post_findByPk_Some[of d now i]
  by (auto simp: getPostById_def Let_def load_includes_def split: option.splits)

lemmas ties_defs =
  db_ties_def post_b_def like_bob_x_def alice_def bob_def post_x_def

lemmas list_eval =
  listPosts_def listPosts_where_def Post_findAndCountAll_def joined_rows_def
  load_includes_def include_User_def include_PostLikes_def User_findByPk_def post_matches_def
  Post_injectScope_def Post_defaultScope_def merge_key_def holds_key_def search_matches_def
  truthy_id_def truthy_str_def like_matches_post_active no_filters_def first_page_def
  as_stored_def backwards_def Let_def

text \<open>
  C5, evaluated: at time 100 the store holds post 1 (available at 50) and post 2
  (available at 900). With \<open>include_scheduled\<close> unset the listing has post 1 only and
  \<open>total = 1\<close>; with \<open>include_scheduled = true\<close> the \<open>whereClause\<close> has no
  \<open>available_at\<close> key, the default scope of \<open>Post\<close> supplies its own, and the listing
  is the same: the scheduled post is in neither the items nor the total. The order in
  which the store delivers rows plays no part.
\<close>

theorem listPosts_include_scheduled_same:
  "map p_id (posts db0) = [1, 2] \<and> map available_at (posts db0) = [50, 900] \<and>
   pw_available_at_lte (listPosts_where 100 with_scheduled) = None \<and>
   map (p_id \<circ> pd_post) (lr_posts (listPosts never as_stored db0 100 no_filters first_page)) = [1] \<and>
   total (listPosts never as_stored db0 100 no_filters first_page) = 1 \<and>
   map (p_id \<circ> pd_post) (lr_posts (listPosts never as_stored db0 100 with_scheduled first_page)) = [1] \<and>
   total (listPosts never as_stored db0 100 with_scheduled first_page) = 1 \<and>
   map (p_id \<circ> pd_post) (lr_posts (listPosts never backwards db0 100 with_scheduled first_page)) = [1] \<and>
   total (listPosts never backwards db0 100 with_scheduled first_page) = 1"
  by (simp add: store_defs with_scheduled_def list_eval)

text \<open>
  C7, as the code has it. In a store with unique post and user keys:
  \<^item> the \<open>total\<close> of \<open>listPosts\<close> is the number of posts its query selects, each
    counted once however many likes it has, and the items are in descending order of
    \<open>available_at\<close>, whatever the order in which the store delivers the rows (the
    query orders by nothing else);
  \<^item> every item of \<open>listPosts\<close>, and the post returned by \<open>getPostById\<close>, carries
    \<open>total_likes\<close> equal to the number of like rows of that post with
    \<open>is_deleted = false\<close>, and the \<open>{id, name}\<close> of the user row that owns the post;
  \<^item> the items of \<open>getUserPosts\<close> carry the same \<open>total_likes\<close> and no user.
\<close>

theorem listing_aggregates:
  "distinct (map p_id (posts d)) \<Longrightarrow> distinct (map u_id (users d)) \<Longrightarrow>
   total (listPosts ilike scan d now f pg) =
     length (filter (\<lambda>p. post_matches (Post_injectScope now (listPosts_where now f)) p \<and>
                          search_matches ilike (truthy_str (search f)) p) (posts d)) \<and>
   sorted_wrt (\<lambda>a b. available_at (pd_post b) \<le> available_at (pd_post a))
     (lr_posts (listPosts ilike scan d now f pg)) \<and>
   (\<forall>v \<in> set (lr_posts (listPosts ilike scan d now f pg)).
      pv_total_likes v =
        length (filter (\<lambda>l. l_post_id l = p_id (pd_post v) \<and> \<not> is_deleted l) (post_likes d)) \<and>
      (\<forall>u \<in> set (users d). u_id u = p_user_id (pd_post v) \<longrightarrow> pd_User v = Some (u_id u, u_name u))) \<and>
   (\<forall>v. getPostById d now i = Inr v \<longrightarrow>
      p_id (pd_post v) = i \<and>
      pv_total_likes v =
        length (filter (\<lambda>l. l_post_id l = p_id (pd_post v) \<and> \<not> is_deleted l) (post_likes d)) \<and>
      (\<forall>u \<in> set (users d). u_id u = p_user_id (pd_post v) \<longrightarrow> pd_User v = Some (u_id u, u_name u))) \<and>
   (\<forall>v \<in> set (up_posts (getUserPosts ilike scan d now userId f pg)).
      pv_total_likes v =
        length (filter (\<lambda>l. l_post_id l = p_id (pd_post v) \<and> \<not> is_deleted l) (post_likes d)) \<and>
      pd_User v = None)"
proof -
  assume dp: "distinct (map p_id (posts d))" and du: "distinct (map u_id (users d))"
  have a: "total (listPosts ilike scan d now f pg) =
     length (filter (\<lambda>p. post_matches (Post_injectScope now (listPosts_where now f)) p \<and>
                          search_matches ilike (truthy_str (search f)) p) (posts d))"
    by (rule listPosts_total[OF dp])
  have b: "sorted_wrt (\<lambda>a b. available_at (pd_post b) \<le> available_at (pd_post a))
     (lr_posts (listPosts ilike scan d now f pg))"
    by (rule listPosts_sorted)
  have c: "\<forall>v \<in> set (lr_posts (listPosts ilike scan d now f pg)).
      pv_total_likes v =
        length (filter (\<lambda>l. l_post_id l = p_id (pd_post v) \<and> \<not> is_deleted l) (post_likes d)) \<and>
      (\<forall>u \<in> set (users d). u_id u = p_user_id (pd_post v) \<longrightarrow> pd_User v = Some (u_id u, u_name u))"
    using listPosts_item[of _ ilike scan d now f pg] include_User_owner[OF du]
    by (simp add: include_PostLikes_length)
  have e: "\<forall>v. getPostById d now i = Inr v \<longrightarrow>
      p_id (pd_post v) = i \<and>
      pv_total_likes v =
        length (filter (\<lambda>l. l_post_id l = p_id (pd_post v) \<and> \<not> is_deleted l) (post_likes d)) \<and>
      (\<forall>u \<in> set (users d). u_id u = p_user_id (pd_post v) \<longrightarrow> pd_User v = Some (u_id u, u_name u))"
    using getPostById_item[of d now i] include_User_owner[OF du]
    by (simp add: include_PostLikes_length)
  have g: "\<forall>v \<in> set (up_posts (getUserPosts ilike scan d now userId f pg)).
      pv_total_likes v =
        length (filter (\<lambda>l. l_post_id l = p_id (pd_post v) \<and> \<not> is_deleted l) (post_likes d)) \<and>
      pd_User v = None"
    using getUserPosts_item[of _ ilike scan d now userId f pg]
    by (simp add: include_PostLikes_length)
  show ?thesis using a b c e g by blast
qed

theorem listing_aggregates_witness:
  "distinct (map p_id (posts db_ties)) \<and> distinct (map u_id (users db_ties)) \<and>
   total (listPosts never backwards db_ties 100 no_filters first_page) = 2 \<and>
   set (map (\<lambda>v. (p_id (pd_post v), pv_total_likes v, pd_User v))
        (lr_posts (listPosts never backwards db_ties 100 no_filters first_page))) =
     {(1, 1, Some (1, ''Alice'')), (2, 0, Some (2, ''Bob''))} \<and>
   getPostById db_ties 100 1 =
     Inr \<lparr>pd_post = post_x, pd_User = Some (1, ''Alice''), pd_PostLikes = [1], pv_total_likes = 1\<rparr> \<and>
   map pv_total_likes (up_posts (getUserPosts never backwards db_ties 100 1 no_filters first_page)) = [1]"
proof -
  have dp: "distinct (map p_id (posts db_ties))" by (simp add: ties_defs)
  have du: "distinct (map u_id (users db_ties))" by (simp add: ties_defs)
  have g: "getPostById db_ties 100 1 =
     Inr \<lparr>pd_post = post_x, pd_User = Some (1, ''Alice''), pd_PostLikes = [1], pv_total_likes = 1\<rparr>"
    by (simp add: getPostById_def Post_findByPk_def where_id_def ties_defs list_eval)
  have u: "map pv_total_likes (up_posts (getUserPosts never backwards db_ties 100 1 no_filters first_page)) = [1]"
    by (simp add: ties_defs getUserPosts_def list_eval)
  have s: "set (map (\<lambda>v. (p_id (pd_post v), pv_total_likes v, pd_User v))
        (lr_posts (listPosts never backwards db_ties 100 no_filters first_page))) =
     {(1, 1, Some (1, ''Alice'')), (2, 0, Some (2, ''Bob''))}"
    by (simp add: ties_defs list_eval) auto
  have "total (listPosts never backwards db_ties 100 no_filters first_page) =
     length (filter (\<lambda>p. post_matches (Post_injectScope 100 (listPosts_where 100 no_filters)) p \<and>
                          search_matches never (truthy_str (search no_filters)) p) (posts db_ties))"
    using listing_aggregates[OF dp du, where ilike = never and scan = backwards and now = 100
        and f = no_filters and pg = first_page and i = 1 and userId = 1]
    by blast
  then have t: "total (listPosts never backwards db_ties 100 no_filters first_page) = 2"
    by (simp add: ties_defs listPosts_where_def post_matches_def Post_injectScope_def
        Post_defaultScope_def merge_key_def holds_key_def search_matches_def truthy_id_def
        truthy_str_def no_filters_def)
  show ?thesis using dp du t s g u by blast
qed

text \<open>
  The claim as stated fails twice. Posts 1 and 2 have the same \<open>available_at\<close>: when
  the store delivers them in key order \<open>listPosts\<close> returns 1 then 2, and when it
  delivers them in the opposite order \<open>listPosts\<close> returns 2 then 1; the query asks
  for neither, so ascending id is not what the code guarantees. And \<open>getUserPosts\<close>, a
  listing too, returns the posts of user 1 without the owner's identity, whatever the
  order of delivery.
\<close>

theorem listing_tie_order_counterexample:
  "map (available_at \<circ> pd_post) (lr_posts (listPosts never as_stored db_ties 100 no_filters first_page)) =
     [50, 50] \<and>
   map (p_id \<circ> pd_post) (lr_posts (listPosts never as_stored db_ties 100 no_filters first_page)) = [1, 2] \<and>
   map (p_id \<circ> pd_post) (lr_posts (listPosts never backwards db_ties 100 no_filters first_page)) = [2, 1] \<and>
   map (p_id \<circ> pd_post) (up_posts (getUserPosts never as_stored db_ties 100 1 no_filters first_page)) = [1] \<and>
   map pd_User (up_posts (getUserPosts never as_stored db_ties 100 1 no_filters first_page)) = [None] \<and>
   map pd_User (up_posts (getUserPosts never backwards db_ties 100 1 no_filters first_page)) = [None]"
  by (simp add: ties_defs getUserPosts_def list_eval)

end
